theory Spec2Isabelle
  imports Complex_Main "HOL-Library.Log_Nat"
begin

section \<open>Python numbers as used by \<^verbatim>\<open>ForgeDesigner.py\<close>\<close>

text \<open>
  The chamber dimensions reach \<^verbatim>\<open>calculate_forge_specs\<close> as Python floats (the collector
  reads them with \<^verbatim>\<open>float(input(...))\<close>), so every product, sum and quotient of the
  calculator is an IEEE 754 binary64 operation: the exact result, rounded to the nearest
  double with ties to even, or an infinity when it is too large. A finite double is
  modelled by its exact rational value. The two zeros are one value (the calculator never
  divides by a computed quantity and never inspects the sign of a zero).
\<close>

datatype pyfloat = Fin rat | PInf | NInf | NaN

datatype py_error = OverflowError | ValueError | ZeroDivisionError

text \<open>\<open>ilog2 x\<close> is \<open>\<lfloor>log\<^sub>2 x\<rfloor>\<close> for a positive rational \<open>x\<close>, computed from the bit lengths
  of numerator and denominator.\<close>

definition ilog2 :: "rat \<Rightarrow> int" where
  "ilog2 x = (let (p, q) = quotient_of x; e = bitlen p - bitlen q
              in if 2 powi e \<le> x then e else e - 1)"

text \<open>Rounding to the nearest integer, ties to the even one: Python's one-argument
  \<^verbatim>\<open>round\<close> and the tie rule of binary64.\<close>

definition round_half_even :: "rat \<Rightarrow> int" where
  "round_half_even x =
     (let f = \<lfloor>x\<rfloor>; d = x - of_int f
      in if d < 1 / 2 then f else if 1 / 2 < d then f + 1
         else if even f then f else f + 1)"

text \<open>\<open>fl x\<close> is the binary64 value of the exact result \<open>x\<close>: 53 significant bits, the
  smallest exponent \<open>-1022\<close> (below it the spacing stays \<open>2\<^sup>-\<^sup>1\<^sup>0\<^sup>7\<^sup>4\<close>), and an infinity
  when the rounded magnitude reaches \<open>2\<^sup>1\<^sup>0\<^sup>2\<^sup>4\<close>.\<close>

definition two_1024 :: rat where
  "two_1024 = 2 powi 1024"

definition fl :: "rat \<Rightarrow> pyfloat" where
  "fl x =
     (if x = 0 then Fin 0
      else let e = max (ilog2 \<bar>x\<bar>) (- 1022);
               q = 2 powi (e - 52);
               y = of_int (round_half_even (x / q)) * q
           in if two_1024 \<le> \<bar>y\<bar> then (if 0 < x then PInf else NInf) else Fin y)"

fun fmul :: "pyfloat \<Rightarrow> pyfloat \<Rightarrow> pyfloat" where
  "fmul (Fin a) (Fin b) = fl (a * b)"
| "fmul NaN _ = NaN"
| "fmul _ NaN = NaN"
| "fmul (Fin a) PInf = (if a = 0 then NaN else if 0 < a then PInf else NInf)"
| "fmul (Fin a) NInf = (if a = 0 then NaN else if 0 < a then NInf else PInf)"
| "fmul PInf (Fin b) = (if b = 0 then NaN else if 0 < b then PInf else NInf)"
| "fmul NInf (Fin b) = (if b = 0 then NaN else if 0 < b then NInf else PInf)"
| "fmul PInf PInf = PInf"
| "fmul PInf NInf = NInf"
| "fmul NInf PInf = NInf"
| "fmul NInf NInf = PInf"

fun fadd :: "pyfloat \<Rightarrow> pyfloat \<Rightarrow> pyfloat" where
  "fadd (Fin a) (Fin b) = fl (a + b)"
| "fadd NaN _ = NaN"
| "fadd _ NaN = NaN"
| "fadd PInf NInf = NaN"
| "fadd NInf PInf = NaN"
| "fadd PInf _ = PInf"
| "fadd NInf _ = NInf"
| "fadd _ PInf = PInf"
| "fadd _ NInf = NInf"

fun fneg :: "pyfloat \<Rightarrow> pyfloat" where
  "fneg (Fin a) = Fin (- a)"
| "fneg PInf = NInf"
| "fneg NInf = PInf"
| "fneg NaN = NaN"

definition fsub :: "pyfloat \<Rightarrow> pyfloat \<Rightarrow> pyfloat" where
  "fsub x y = fadd x (fneg y)"

text \<open>Float division raises \<^verbatim>\<open>ZeroDivisionError\<close> on a zero divisor.\<close>

fun fdiv :: "pyfloat \<Rightarrow> pyfloat \<Rightarrow> py_error + pyfloat" where
  "fdiv (Fin a) (Fin b) = (if b = 0 then Inl ZeroDivisionError else Inr (fl (a / b)))"
| "fdiv PInf (Fin b) =
     (if b = 0 then Inl ZeroDivisionError else Inr (if 0 < b then PInf else NInf))"
| "fdiv NInf (Fin b) =
     (if b = 0 then Inl ZeroDivisionError else Inr (if 0 < b then NInf else PInf))"
| "fdiv NaN (Fin b) = (if b = 0 then Inl ZeroDivisionError else Inr NaN)"
| "fdiv _ NaN = Inr NaN"
| "fdiv (Fin a) _ = Inr (Fin 0)"
| "fdiv _ _ = Inr NaN"

text \<open>Comparison of a float with a number (\<^verbatim>\<open>x < c\<close>): exact, false for a NaN.\<close>

fun flt :: "pyfloat \<Rightarrow> rat \<Rightarrow> bool" where
  "flt (Fin a) c = (a < c)"
| "flt NInf c = True"
| "flt _ c = False"

text \<open>\<^verbatim>\<open>round(x)\<close> of a float gives an int, rounding ties to even; it raises on an
  infinity and on a NaN.\<close>

fun py_round :: "pyfloat \<Rightarrow> py_error + int" where
  "py_round (Fin x) = Inr (round_half_even x)"
| "py_round NaN = Inl ValueError"
| "py_round _ = Inl OverflowError"

text \<open>\<^verbatim>\<open>round(x, n)\<close> of a float with \<open>n\<close> decimals: the exact value of \<open>x\<close> is rounded
  to \<open>n\<close> decimals (ties to even), and that decimal is converted back to the nearest double;
  infinities and NaN are returned as they are.\<close>

fun py_round_nd :: "pyfloat \<Rightarrow> nat \<Rightarrow> py_error + pyfloat" where
  "py_round_nd (Fin x) n =
     (case fl (of_int (round_half_even (x * 10 ^ n)) / 10 ^ n) of
        Fin y \<Rightarrow> Inr (Fin y)
      | _ \<Rightarrow> Inl OverflowError)"
| "py_round_nd f n = Inr f"

text \<open>An int operand of a float operation is converted to the nearest double first.\<close>

definition int_to_float :: "int \<Rightarrow> py_error + pyfloat" where
  "int_to_float n = (case fl (of_int n) of Fin y \<Rightarrow> Inr (Fin y) | _ \<Rightarrow> Inl OverflowError)"

text \<open>\<^verbatim>\<open>a / b\<close> on two ints is the correctly rounded quotient.\<close>

definition int_truediv :: "int \<Rightarrow> int \<Rightarrow> py_error + pyfloat" where
  "int_truediv a b =
     (if b = 0 then Inl ZeroDivisionError
      else case fl (of_int a / of_int b) of Fin y \<Rightarrow> Inr (Fin y) | _ \<Rightarrow> Inl OverflowError)"

text \<open>An exception ends the calculation: the statements after it do not run.\<close>

definition exc_bind :: "py_error + 'a \<Rightarrow> ('a \<Rightarrow> py_error + 'b) \<Rightarrow> py_error + 'b" where
  "exc_bind m f = (case m of Inl e \<Rightarrow> Inl e | Inr x \<Rightarrow> f x)"

section \<open>Configuration and constants\<close>

definition REFRACTORY_DENSITY_LB_PER_CF :: int where "REFRACTORY_DENSITY_LB_PER_CF = 92"
definition REFRACTORY_BAG_SIZE_LB :: int where "REFRACTORY_BAG_SIZE_LB = 55"
definition BTU_PER_CUBIC_INCH :: int where "BTU_PER_CUBIC_INCH = 450"
definition HOLE_COVERAGE_CI :: int where "HOLE_COVERAGE_CI = 18"
definition MIN_BURNER_HOLES :: int where "MIN_BURNER_HOLES = 12"
definition BURNER_ROWS :: int where "BURNER_ROWS = 3"
definition HOLE_SPACING :: pyfloat where "HOLE_SPACING = fl (3 / 4)"
definition COST_REFRACTORY_PER_BAG :: int where "COST_REFRACTORY_PER_BAG = 110"
definition COST_BASE_MATERIALS :: int where "COST_BASE_MATERIALS = 250"

text \<open>An int constant or literal in a float operation: its double (every constant of the
  program is far below \<open>2\<^sup>5\<^sup>3\<close>, so the conversion is exact).\<close>

definition cfloat :: "int \<Rightarrow> pyfloat" where
  "cfloat n = Fin (of_int n)"

section \<open>The engineering calculator\<close>

text \<open>The input dictionary built by \<^verbatim>\<open>get_user_input\<close>: four floats and the int read for
  the door configuration (1 front only, 2 front and rear, 3 side loading).\<close>

record user_input =
  width :: pyfloat
  height :: pyfloat
  length_in :: pyfloat
  insulation_in :: pyfloat
  door_config_in :: int

text \<open>A value that is an int on one path and a float on another (the rear door sizes).\<close>

datatype pynum = PyInt int | PyFloat pyfloat

text \<open>The entries of the cut list. The note of the front end panel is the f-string
  \<^verbatim>\<open>Cut {door_w}"x{door_h}" door opening\<close>; it is kept as the two numbers it prints.\<close>

record plate_cut =
  plate_name :: string
  plate_qty :: int
  plate_w :: pyfloat
  plate_h :: pyfloat
  plate_thickness :: string
  plate_note :: "(pyfloat \<times> pyfloat) option"

record angle_cut =
  angle_name :: string
  angle_qty :: int
  angle_length :: pyfloat
  angle_size :: string

record steel_cut_list =
  plates :: "plate_cut list"
  angle_iron :: "angle_cut list"

definition quarter_inch :: string where
  "quarter_inch = ''1/4'' @ [CHR 0x22]"

definition angle_stock :: string where
  "angle_stock = ''2'' @ [CHR 0x22] @ '' x 2'' @ [CHR 0x22] @ '' x 1/8'' @ [CHR 0x22]"

definition calculate_steel_cuts ::
  "pyfloat \<Rightarrow> pyfloat \<Rightarrow> pyfloat \<Rightarrow> pyfloat \<Rightarrow> pyfloat \<Rightarrow> steel_cut_list" where
  "calculate_steel_cuts ext_w ext_h ext_l door_w door_h =
     (let cuts =
        [\<lparr>plate_name = ''Side Panels'', plate_qty = 2, plate_w = ext_l, plate_h = ext_h,
          plate_thickness = quarter_inch, plate_note = None\<rparr>,
         \<lparr>plate_name = ''Top Panel'', plate_qty = 1, plate_w = ext_l, plate_h = ext_w,
          plate_thickness = quarter_inch, plate_note = None\<rparr>,
         \<lparr>plate_name = ''Bottom Panel'', plate_qty = 1, plate_w = ext_l, plate_h = ext_w,
          plate_thickness = quarter_inch, plate_note = None\<rparr>,
         \<lparr>plate_name = ''Front End Panel'', plate_qty = 1, plate_w = ext_w, plate_h = ext_h,
          plate_thickness = quarter_inch, plate_note = Some (door_w, door_h)\<rparr>,
         \<lparr>plate_name = ''Rear End Panel'', plate_qty = 1, plate_w = ext_w, plate_h = ext_h,
          plate_thickness = quarter_inch, plate_note = None\<rparr>];
        angle_cuts =
        [\<lparr>angle_name = ''Corner Posts'', angle_qty = 4, angle_length = ext_h,
          angle_size = angle_stock\<rparr>,
         \<lparr>angle_name = ''Top/Bottom Rails'', angle_qty = 8,
          angle_length = fsub ext_l (cfloat 4), angle_size = angle_stock\<rparr>,
         \<lparr>angle_name = ''End Rails'', angle_qty = 8,
          angle_length = fsub ext_w (cfloat 4), angle_size = angle_stock\<rparr>]
      in \<lparr>plates = cuts, angle_iron = angle_cuts\<rparr>)"

text \<open>The dictionary returned by \<^verbatim>\<open>calculate_forge_specs\<close>, key by key.\<close>

record specs =
  internal_w :: pyfloat
  internal_h :: pyfloat
  internal_l :: pyfloat
  insulation :: pyfloat
  door_config :: int
  internal_volume :: pyfloat
  external_w :: pyfloat
  external_h :: pyfloat
  external_l :: pyfloat
  burner_holes :: int
  holes_per_row :: int
  burner_rows :: int
  burner_length :: pyfloat
  burner_width :: pyfloat
  cfm_required :: int
  cfm_recommended :: int
  static_pressure :: string
  refractory_bags :: pyfloat
  refractory_weight :: pyfloat
  blanket_sqft :: pyfloat
  ifb_floor :: int
  ifb_doors :: int
  front_door_w :: pyfloat
  front_door_h :: pyfloat
  rear_door_w :: pynum
  rear_door_h :: pynum
  steel_cuts :: steel_cut_list
  btu_required :: int
  estimated_cost :: pyfloat
  generated_date :: string

text \<open>\<^verbatim>\<open>calculate_forge_specs\<close>, statement by statement. The clock reading that becomes
  \<^verbatim>\<open>generated_date\<close> is the parameter \<open>now\<close>. The debug f-strings format values and
  cannot raise; they are left out.\<close>

definition calculate_forge_specs :: "string \<Rightarrow> user_input \<Rightarrow> py_error + specs" where
  "calculate_forge_specs now user_input =
    (let w = width user_input;
         h = height user_input;
         l = length_in user_input;
         ins = insulation_in user_input;
         door_config = door_config_in user_input;
         internal_volume = fmul (fmul w h) l;
         ext_w = fadd (fadd w (fmul ins (cfloat 2))) (fl (1 / 2));
         ext_h = fadd (fadd h (fmul ins (cfloat 2))) (fl (1 / 2));
         ext_l = fadd l (fl 1)
     in
     exc_bind (fdiv internal_volume (cfloat HOLE_COVERAGE_CI)) (\<lambda>raw_holes.
     exc_bind (py_round raw_holes) (\<lambda>rounded_holes.
     let total_holes = max MIN_BURNER_HOLES rounded_holes in
     exc_bind (int_truediv total_holes BURNER_ROWS) (\<lambda>per_row.
     exc_bind (py_round per_row) (\<lambda>holes_per_row.
     let total_holes = holes_per_row * BURNER_ROWS in
     exc_bind (int_to_float holes_per_row) (\<lambda>holes_per_row_f.
     exc_bind (py_round_nd (fadd (fmul holes_per_row_f HOLE_SPACING) (fl (3 / 2))) 1)
       (\<lambda>burner_length.
     let burner_width = fl 3 in
     exc_bind (fdiv internal_volume (cfloat HOLE_COVERAGE_CI)) (\<lambda>raw_holes2.
     exc_bind (py_round (fmul raw_holes2 (fl (12 / 10)))) (\<lambda>cfm_required.
     exc_bind (int_to_float cfm_required) (\<lambda>cfm_required_f.
     exc_bind (py_round (fmul cfm_required_f (fl (125 / 100)))) (\<lambda>cfm_recommended.
     let static_pressure = (if flt internal_volume 500 then ''1.5'' else ''3.0'');
         external_volume_ci = fmul (fmul ext_w ext_h) ext_l;
         refractory_volume_ci = fsub external_volume_ci internal_volume in
     exc_bind (fdiv refractory_volume_ci (cfloat 1728)) (\<lambda>refractory_volume_cf.
     let refractory_weight_lb = fmul refractory_volume_cf (cfloat REFRACTORY_DENSITY_LB_PER_CF) in
     exc_bind (fdiv refractory_weight_lb (cfloat REFRACTORY_BAG_SIZE_LB)) (\<lambda>bags_raw.
     exc_bind (py_round_nd bags_raw 1) (\<lambda>refractory_bags.
     exc_bind (py_round_nd (fmul w (fl (85 / 100))) 1) (\<lambda>front_door_w.
     exc_bind (py_round_nd (fmul h (fl (85 / 100))) 1) (\<lambda>front_door_h.
     exc_bind
       (if door_config = 2
        then exc_bind (py_round_nd (fmul w (fl (7 / 10))) 1) (\<lambda>rw.
             exc_bind (py_round_nd (fmul h (fl (75 / 100))) 1) (\<lambda>rh.
             Inr (PyFloat rw, PyFloat rh)))
        else Inr (PyInt 0, PyInt 0)) (\<lambda>(rear_door_w, rear_door_h).
     let steel_cuts = calculate_steel_cuts ext_w ext_h ext_l front_door_w front_door_h in
     exc_bind (py_round_nd (fadd (cfloat COST_BASE_MATERIALS)
                (fmul refractory_bags (cfloat COST_REFRACTORY_PER_BAG))) 2) (\<lambda>estimated_cost.
     exc_bind (py_round (fmul internal_volume (cfloat BTU_PER_CUBIC_INCH))) (\<lambda>btu_required.
     exc_bind (fdiv (fadd (fadd (fmul (fmul ext_l ext_h) (cfloat 2)) (fmul ext_l ext_w))
                          (fmul (fmul ext_w ext_h) (cfloat 2))) (cfloat 144)) (\<lambda>blanket_raw.
     exc_bind (py_round_nd blanket_raw 1) (\<lambda>blanket_sqft.
     exc_bind (fdiv (fmul ext_l ext_w) (cfloat 72)) (\<lambda>floor_raw.
     exc_bind (py_round floor_raw) (\<lambda>floor_rounded.
     let ifb_floor_count = max 2 floor_rounded;
         ifb_door_count = (if door_config = 1 then 4 else 6) in
     exc_bind (py_round_nd refractory_weight_lb 1) (\<lambda>refractory_weight_1.
     Inr \<lparr>internal_w = w, internal_h = h, internal_l = l, insulation = ins,
          door_config = door_config,
          internal_volume = internal_volume,
          external_w = ext_w, external_h = ext_h, external_l = ext_l,
          burner_holes = total_holes, holes_per_row = holes_per_row,
          burner_rows = BURNER_ROWS,
          burner_length = burner_length, burner_width = burner_width,
          cfm_required = cfm_required, cfm_recommended = cfm_recommended,
          static_pressure = static_pressure,
          refractory_bags = refractory_bags, refractory_weight = refractory_weight_1,
          blanket_sqft = blanket_sqft,
          ifb_floor = ifb_floor_count, ifb_doors = ifb_door_count,
          front_door_w = front_door_w, front_door_h = front_door_h,
          rear_door_w = rear_door_w, rear_door_h = rear_door_h,
          steel_cuts = steel_cuts,
          btu_required = btu_required, estimated_cost = estimated_cost,
          generated_date = now\<rparr>))))))))))))))))))))))))"

section \<open>Notions used to state and prove the properties\<close>

text \<open>The exponent and the significand that \<open>fl\<close> works with.\<close>

definition fexp :: "rat \<Rightarrow> int" where
  "fexp x = max (ilog2 \<bar>x\<bar>) (- 1022)"

definition fsig :: "rat \<Rightarrow> int" where
  "fsig x = round_half_even (x / 2 powi (fexp x - 52))"

text \<open>Exact results of magnitude \<open>fl_threshold\<close> or more round to an infinity; the largest
  finite double is \<open>max_double\<close>.\<close>

definition fl_threshold :: rat where
  "fl_threshold = two_1024 - 2 powi 970"

definition max_double :: rat where
  "max_double = two_1024 - 2 powi 971"

fun is_fin :: "pyfloat \<Rightarrow> bool" where
  "is_fin (Fin x) = True"
| "is_fin _ = False"

text \<open>A float whose value, when finite, is at most the largest double: every result of a
  float operation is one.\<close>

fun fbounded :: "pyfloat \<Rightarrow> bool" where
  "fbounded (Fin x) = (\<bar>x\<bar> \<le> max_double)"
| "fbounded _ = True"

text \<open>A finite positive float: a positive rational that is a binary64 value.\<close>

fun pos_double :: "pyfloat \<Rightarrow> bool" where
  "pos_double (Fin x) = (0 < x \<and> fl x = Fin x)"
| "pos_double _ = False"

text \<open>The precondition of the specification: the four dimensions are finite positive
  floats and the door configuration is one of the three menu entries.\<close>

definition valid_input :: "user_input \<Rightarrow> bool" where
  "valid_input u =
     (pos_double (width u) \<and> pos_double (height u) \<and> pos_double (length_in u) \<and>
      pos_double (insulation_in u) \<and>
      (door_config_in u = 1 \<or> door_config_in u = 2 \<or> door_config_in u = 3))"

text \<open>The values the calculator computes before its first \<^verbatim>\<open>round\<close>, as functions of the
  input.\<close>

definition volume_of :: "user_input \<Rightarrow> pyfloat" where
  "volume_of u = fmul (fmul (width u) (height u)) (length_in u)"

definition ext_w_of :: "user_input \<Rightarrow> pyfloat" where
  "ext_w_of u = fadd (fadd (width u) (fmul (insulation_in u) (cfloat 2))) (fl (1 / 2))"

definition ext_h_of :: "user_input \<Rightarrow> pyfloat" where
  "ext_h_of u = fadd (fadd (height u) (fmul (insulation_in u) (cfloat 2))) (fl (1 / 2))"

definition ext_l_of :: "user_input \<Rightarrow> pyfloat" where
  "ext_l_of u = fadd (length_in u) (fl 1)"

text \<open>A chamber whose three sides are \<open>2\<^sup>4\<^sup>0\<^sup>0\<close> inches (about 2.58e120): each side is a
  finite positive float, the product of the three is not.\<close>

definition huge_input :: user_input where
  "huge_input = \<lparr>width = Fin (2 powi 400), height = Fin (2 powi 400),
     length_in = Fin (2 powi 400), insulation_in = Fin 2, door_config_in = 1\<rparr>"

text \<open>A run that raises nothing but \<^verbatim>\<open>OverflowError\<close>.\<close>

definition only_overflow :: "py_error + 'a \<Rightarrow> bool" where
  "only_overflow m = (case m of Inl e \<Rightarrow> e = OverflowError | Inr x \<Rightarrow> True)"

text \<open>Floats that are not negative, or positive, an infinity included.\<close>

fun nonneg_or_inf :: "pyfloat \<Rightarrow> bool" where
  "nonneg_or_inf (Fin a) = (0 \<le> a)"
| "nonneg_or_inf PInf = True"
| "nonneg_or_inf _ = False"

fun pos_or_inf :: "pyfloat \<Rightarrow> bool" where
  "pos_or_inf (Fin a) = (0 < a)"
| "pos_or_inf PInf = True"
| "pos_or_inf _ = False"

section \<open>Concrete inputs\<close>

text \<open>Scenario A of the specification: a 6 x 6 x 14 chamber, 2 inches of insulation, front door only.\<close>

definition scenario_A :: user_input where
  "scenario_A = \<lparr>width = Fin 6, height = Fin 6, length_in = Fin 14, insulation_in = Fin 2, door_config_in = 1\<rparr>"

definition specs_A :: "string \<Rightarrow> specs" where
  "specs_A now =
     \<lparr>internal_w = Fin 6, internal_h = Fin 6, internal_l = Fin 14, insulation = Fin 2,
      door_config = 1, internal_volume = Fin 504,
      external_w = Fin (21 / 2), external_h = Fin (21 / 2), external_l = Fin 15,
      burner_holes = 27, holes_per_row = 9, burner_rows = 3,
      burner_length = fl (41 / 5), burner_width = Fin 3,
      cfm_required = 34, cfm_recommended = 42, static_pressure = ''3.0'',
      refractory_bags = fl (11 / 10), refractory_weight = fl (306 / 5),
      blanket_sqft = fl (24 / 5), ifb_floor = 2, ifb_doors = 4,
      front_door_w = fl (51 / 10), front_door_h = fl (51 / 10),
      rear_door_w = PyInt 0, rear_door_h = PyInt 0,
      steel_cuts = calculate_steel_cuts (Fin (21 / 2)) (Fin (21 / 2)) (Fin 15) (fl (51 / 10)) (fl (51 / 10)),
      btu_required = 226800, estimated_cost = Fin 371,
      generated_date = now\<rparr>"







lemma quotient_of_pos:
  assumes "0 < x" "quotient_of x = (p, q)"
  shows "0 < p" "0 < q" "x = of_int p / of_int q"
proof -
  show q: "0 < q" using assms(2) quotient_of_denom_pos by blast
  show x: "x = of_int p / of_int q" using assms(2) quotient_of_div by blast
  show "0 < p" using assms(1) q x by (simp add: zero_less_divide_iff)
qed

lemma ilog2_bounds:
  assumes "0 < x"
  shows "2 powi (ilog2 x) \<le> x \<and> x < 2 powi (ilog2 x + 1)"
proof -
  obtain p q where pq: "quotient_of x = (p, q)" by (cases "quotient_of x")
  note h = quotient_of_pos[OF assms pq]
  define e where "e = bitlen p - bitlen q"
  have bp: "2 ^ nat (bitlen p - 1) \<le> p" "p < 2 ^ nat (bitlen p)"
    using bitlen_bounds[OF h(1)] by auto
  have bq: "2 ^ nat (bitlen q - 1) \<le> q" "q < 2 ^ nat (bitlen q)"
    using bitlen_bounds[OF h(2)] by auto
  have bp1: "1 \<le> bitlen p" using h(1) bitlen_eq_zero_iff[of p] bitlen_nonneg[of p] by linarith
  have bq1: "1 \<le> bitlen q" using h(2) bitlen_eq_zero_iff[of q] bitlen_nonneg[of q] by linarith
  have P1: "(of_int p :: rat) < 2 powi (bitlen p)"
  proof -
    have "(of_int p :: rat) < of_int (2 ^ nat (bitlen p))" using bp(2) of_int_less_iff by blast
    then show ?thesis using bp1 by (simp add: power_int_def)
  qed
  have P2: "(2::rat) powi (bitlen p - 1) \<le> of_int p"
  proof -
    have "(of_int (2 ^ nat (bitlen p - 1)) :: rat) \<le> of_int p" using bp(1) of_int_le_iff by blast
    then show ?thesis using bp1 by (simp add: power_int_def)
  qed
  have Q1: "(of_int q :: rat) < 2 powi (bitlen q)"
  proof -
    have "(of_int q :: rat) < of_int (2 ^ nat (bitlen q))" using bq(2) of_int_less_iff by blast
    then show ?thesis using bq1 by (simp add: power_int_def)
  qed
  have Q2: "(2::rat) powi (bitlen q - 1) \<le> of_int q"
  proof -
    have "(of_int (2 ^ nat (bitlen q - 1)) :: rat) \<le> of_int q" using bq(1) of_int_le_iff by blast
    then show ?thesis using bq1 by (simp add: power_int_def)
  qed
  have qpos: "(0::rat) < of_int q" using h(2) by simp
  have up: "x < 2 powi (e + 1)"
  proof -
    have "of_int p < (2::rat) powi (e + 1) * 2 powi (bitlen q - 1)"
      using P1 by (simp add: e_def flip: power_int_add)
    also have "\<dots> \<le> 2 powi (e + 1) * of_int q"
      using Q2 by (simp add: mult_left_mono)
    finally show ?thesis using qpos h(3) by (simp add: pos_divide_less_eq)
  qed
  have lo: "2 powi (e - 1) < x"
  proof -
    have "(2::rat) powi (e - 1) * of_int q < 2 powi (e - 1) * 2 powi (bitlen q)"
      using Q1 by (simp add: mult_strict_left_mono)
    also have "\<dots> = 2 powi (bitlen p - 1)" by (simp add: e_def flip: power_int_add)
    also have "\<dots> \<le> of_int p" by (rule P2)
    finally show ?thesis using qpos h(3) by (simp add: pos_less_divide_eq)
  qed
  show ?thesis
  proof (cases "2 powi e \<le> x")
    case True
    then have "ilog2 x = e" by (simp add: ilog2_def pq e_def Let_def)
    then show ?thesis using True up by simp
  next
    case False
    then have "ilog2 x = e - 1" by (simp add: ilog2_def pq e_def Let_def)
    then show ?thesis using False lo by simp
  qed
qed

lemma ilog2_unique:
  assumes "0 < x" "2 powi e \<le> x" "x < 2 powi (e + 1)"
  shows "ilog2 x = e"
proof -
  have b: "2 powi (ilog2 x) \<le> x" "x < 2 powi (ilog2 x + 1)" using ilog2_bounds[OF assms(1)] by auto
  have 1: "e < ilog2 x + 1"
  proof (rule ccontr)
    assume "\<not> e < ilog2 x + 1"
    then have "(2::rat) powi (ilog2 x + 1) \<le> 2 powi e" by (intro power_int_increasing) auto
    then show False using assms(2) b(2) by linarith
  qed
  have 2: "ilog2 x < e + 1"
  proof (rule ccontr)
    assume "\<not> ilog2 x < e + 1"
    then have "(2::rat) powi (e + 1) \<le> 2 powi (ilog2 x)" by (intro power_int_increasing) auto
    then show False using assms(3) b(1) by linarith
  qed
  show ?thesis using 1 2 by linarith
qed

lemma rhe_of_int: "round_half_even (of_int n) = n"
  by (simp add: round_half_even_def)

lemma rhe_bounds: "x - 1 / 2 \<le> of_int (round_half_even x)" "of_int (round_half_even x) \<le> x + 1 / 2"
  unfolding round_half_even_def Let_def by (auto; linarith)+

lemma rhe_eqI:
  assumes "of_int n - 1 / 2 < x" "x < of_int n + 1 / 2"
  shows "round_half_even x = n"
proof -
  have "\<lfloor>x\<rfloor> = n \<or> \<lfloor>x\<rfloor> = n - 1" using assms by linarith
  then show ?thesis
  proof
    assume f: "\<lfloor>x\<rfloor> = n"
    then have "x - of_int \<lfloor>x\<rfloor> < 1 / 2" using assms by simp
    then show ?thesis unfolding round_half_even_def Let_def using f by simp
  next
    assume f: "\<lfloor>x\<rfloor> = n - 1"
    then have "1 / 2 < x - of_int \<lfloor>x\<rfloor>" using assms by simp
    then show ?thesis unfolding round_half_even_def Let_def using f by simp
  qed
qed

lemma rhe_tie:
  "round_half_even (of_int n + 1 / 2) = (if even n then n else n + 1)"
proof -
  have f: "\<lfloor>(of_int n :: rat) + 1 / 2\<rfloor> = n" by linarith
  show ?thesis unfolding round_half_even_def Let_def f by simp
qed

lemma rhe_mono:
  assumes "x \<le> y"
  shows "round_half_even x \<le> round_half_even y"
proof (rule ccontr)
  assume "\<not> ?thesis"
  then have lt: "round_half_even y + 1 \<le> round_half_even x" by simp
  have "(of_int (round_half_even x) :: rat) \<le> x + 1 / 2" by (rule rhe_bounds)
  moreover have "y - 1 / 2 \<le> of_int (round_half_even y)" by (rule rhe_bounds)
  moreover have "(of_int (round_half_even y) :: rat) + 1 \<le> of_int (round_half_even x)"
    using lt by (metis of_int_1 of_int_add of_int_le_iff)
  ultimately have xy: "x = y" "x = of_int (round_half_even y) + 1 / 2"
    "of_int (round_half_even x) = (of_int (round_half_even y) :: rat) + 1" using assms by linarith+
  define m where "m = round_half_even y"
  have "round_half_even x = (if even m then m else m + 1)" using xy(2) rhe_tie[of m] m_def by simp
  moreover have "round_half_even x = m + 1" using xy(3) m_def
    by (metis of_int_1 of_int_add of_int_eq_iff)
  ultimately have "odd m" by (auto split: if_splits)
  have "round_half_even y = (if even m then m else m + 1)" using xy rhe_tie[of m] m_def by simp
  then show False using m_def \<open>odd m\<close> by simp
qed


lemma rhe_minus: "round_half_even (- x) = - round_half_even x"
proof (cases "x = of_int \<lfloor>x\<rfloor>")
  case True
  then obtain n where "x = of_int n" by metis
  then show ?thesis using rhe_of_int[of n] rhe_of_int[of "- n"] by simp
next
  case False
  then have fm: "\<lfloor>- x\<rfloor> = - \<lfloor>x\<rfloor> - 1" by linarith 
  define f where "f = \<lfloor>x\<rfloor>"
  define d where "d = x - of_int f"
  have d: "0 < d" "d < 1" using False unfolding d_def f_def by linarith+
  have xd: "x = of_int f + d" by (simp add: d_def)
  consider "d < 1 / 2" | "1 / 2 < d" | "d = 1 / 2" by linarith
  then show ?thesis
  proof cases
    case 1
    then have "round_half_even x = f" by (intro rhe_eqI) (use d xd in auto)
    moreover have "round_half_even (- x) = - f" by (intro rhe_eqI) (use 1 d xd in auto)
    ultimately show ?thesis by simp
  next
    case 2
    then have "round_half_even x = f + 1" by (intro rhe_eqI) (use d xd in auto)
    moreover have "round_half_even (- x) = - (f + 1)" by (intro rhe_eqI) (use 2 d xd in auto)
    ultimately show ?thesis by simp
  next
    case 3
    have a: "round_half_even x = (if even f then f else f + 1)" using rhe_tie[of f] xd 3 by simp
    have "- x = of_int (- f - 1) + 1 / 2" using xd 3 by simp
    then have b: "round_half_even (- x) = (if even (- f - 1) then - f - 1 else - f - 1 + 1)"
      using rhe_tie[of "- f - 1"] by simp
    show ?thesis using a b by auto
  qed
qed

lemma rhe_abs_le: "\<bar>of_int (round_half_even x)\<bar> \<le> \<bar>x\<bar> + 1 / 2"
  using rhe_bounds[of x] by linarith

lemma rhe_abs_le2: "\<bar>(of_int (round_half_even x) :: rat)\<bar> \<le> 2 * \<bar>x\<bar>"
proof (cases "\<bar>x\<bar> < 1 / 2")
  case True
  then have "round_half_even x = 0" by (intro rhe_eqI) auto
  then show ?thesis by simp
next
  case False
  then show ?thesis using rhe_abs_le[of x] by linarith
qed

lemma rhe_nonneg: "0 \<le> x \<Longrightarrow> 0 \<le> round_half_even x"
  using rhe_mono[of 0 x] rhe_of_int[of 0] by simp

lemma fl_unfold:
  "x \<noteq> 0 \<Longrightarrow> fl x = (let y = of_int (round_half_even (x / 2 powi (fexp x - 52))) * 2 powi (fexp x - 52)
           in if two_1024 \<le> \<bar>y\<bar> then (if 0 < x then PInf else NInf) else Fin y)"
  by (simp add: fl_def fexp_def Let_def)

lemma fl_0: "fl 0 = Fin 0" by (simp add: fl_def)

lemma pow2_pos: "(0::rat) < 2 powi k" by (simp add: zero_less_power_int)

lemma fl_abs_le2:
  assumes "fl x = Fin y" shows "\<bar>y\<bar> \<le> 2 * \<bar>x\<bar>"
proof (cases "x = 0")
  case True then show ?thesis using assms by (simp add: fl_0)
next
  case False
  define q :: rat where "q = 2 powi (fexp x - 52)"
  have q: "0 < q" unfolding q_def by (rule pow2_pos)
  have "y = of_int (round_half_even (x / q)) * q"
    using assms False by (simp add: fl_unfold q_def Let_def split: if_splits)
  then have "\<bar>y\<bar> = \<bar>of_int (round_half_even (x / q))\<bar> * q" using q by (simp add: abs_mult)
  also have "\<dots> \<le> (2 * \<bar>x / q\<bar>) * q"
    by (rule mult_right_mono[OF rhe_abs_le2]) (use q in simp)
  also have "\<dots> = 2 * \<bar>x\<bar>" using q by (simp add: abs_divide)
  finally show ?thesis .
qed

lemma fl_minus: "fl (- x) = fneg (fl x)"
proof (cases "x = 0")
  case True then show ?thesis by (simp add: fl_0)
next
  case False
  have e: "fexp (- x) = fexp x" by (simp add: fexp_def)
  show ?thesis using False by (simp add: fl_unfold e rhe_minus Let_def)
qed


lemma pow2_mono: "a \<le> b \<Longrightarrow> (2::rat) powi a \<le> 2 powi b"
  by (rule power_int_increasing) auto

lemma pow2_strict_mono: "a < b \<Longrightarrow> (2::rat) powi a < 2 powi b"
  by (rule power_int_strict_increasing) auto

lemma pow2_le_imp_le: "(2::rat) powi a < 2 powi b \<Longrightarrow> a < b"
  using pow2_mono[of b a] by (cases "a < b") auto

lemma pow2_add: "(2::rat) powi (a + b) = 2 powi a * 2 powi b"
  by (simp add: power_int_add)

lemma pow2_diff: "(2::rat) powi (a - b) = 2 powi a / 2 powi b"
  by (simp add: power_int_diff)

lemma pow2_of_int: "0 \<le> k \<Longrightarrow> (2::rat) powi k = of_int (2 ^ nat k)"
  by (simp add: power_int_def)


lemma abs_lt_fexp:
  assumes "x \<noteq> 0" shows "\<bar>x\<bar> < 2 powi (fexp x + 1)"
proof -
  have "\<bar>x\<bar> < 2 powi (ilog2 \<bar>x\<bar> + 1)" using ilog2_bounds[of "\<bar>x\<bar>"] assms by simp
  also have "\<dots> \<le> 2 powi (fexp x + 1)" by (rule pow2_mono) (simp add: fexp_def)
  finally show ?thesis .
qed

lemma fexp_normal:
  assumes "2 powi (- 1022) \<le> \<bar>x\<bar>"
  shows "fexp x = ilog2 \<bar>x\<bar>" "2 powi (fexp x) \<le> \<bar>x\<bar>"
proof -
  have pos: "0 < \<bar>x\<bar>" using assms pow2_pos[of "- 1022"] by linarith
  have b: "2 powi (ilog2 \<bar>x\<bar>) \<le> \<bar>x\<bar>" "\<bar>x\<bar> < 2 powi (ilog2 \<bar>x\<bar> + 1)"
    using ilog2_bounds[OF pos] by auto
  have "(2::rat) powi (- 1022) < 2 powi (ilog2 \<bar>x\<bar> + 1)" using assms b(2) by linarith
  then have "- 1022 < ilog2 \<bar>x\<bar> + 1" by (rule pow2_le_imp_le)
  then show "fexp x = ilog2 \<bar>x\<bar>" by (simp add: fexp_def)
  then show "2 powi (fexp x) \<le> \<bar>x\<bar>" using b(1) by simp
qed

lemma fexp_subnormal:
  assumes "\<bar>x\<bar> < 2 powi (- 1022)" "x \<noteq> 0"
  shows "fexp x = - 1022"
proof -
  have pos: "0 < \<bar>x\<bar>" using assms by simp
  have "2 powi (ilog2 \<bar>x\<bar>) \<le> \<bar>x\<bar>" using ilog2_bounds[OF pos] by auto
  then have "(2::rat) powi (ilog2 \<bar>x\<bar>) < 2 powi (- 1022)" using assms(1) by linarith
  then have "ilog2 \<bar>x\<bar> < - 1022" by (rule pow2_le_imp_le)
  then show ?thesis by (simp add: fexp_def)
qed

lemma fl_sig:
  "x \<noteq> 0 \<Longrightarrow> fl x = (if two_1024 \<le> \<bar>rat_of_int (fsig x) * 2 powi (fexp x - 52)\<bar>
       then (if 0 < x then PInf else NInf) else Fin (rat_of_int (fsig x) * 2 powi (fexp x - 52)))"
  by (simp add: fl_unfold fsig_def Let_def)

lemma pow2_53: "(2::rat) powi (e + 1) = of_int (2 ^ 53) * 2 powi (e - 52)"
proof -
  have "(2::rat) powi (e + 1) = 2 powi (53 + (e - 52))" by (rule arg_cong[where f="\<lambda>k. 2 powi k"]) simp
  also have "\<dots> = 2 powi 53 * 2 powi (e - 52)" by (rule pow2_add)
  finally show ?thesis by simp
qed

lemma pow2_52: "(2::rat) powi e = of_int (2 ^ 52) * 2 powi (e - 52)"
proof -
  have "(2::rat) powi e = 2 powi (52 + (e - 52))" by (rule arg_cong[where f="\<lambda>k. 2 powi k"]) simp
  also have "\<dots> = 2 powi 52 * 2 powi (e - 52)" by (rule pow2_add)
  finally show ?thesis by simp
qed

lemma fsig_abs_le:
  assumes "x \<noteq> 0" shows "\<bar>fsig x\<bar> \<le> 2 ^ 53"
proof -
  define q :: rat where "q = 2 powi (fexp x - 52)"
  have q: "0 < q" unfolding q_def by (rule pow2_pos)
  have "\<bar>x\<bar> < 2 powi (fexp x + 1)" by (rule abs_lt_fexp[OF assms])
  also have "\<dots> = of_int (2 ^ 53) * q" unfolding q_def by (rule pow2_53)
  finally have "\<bar>x\<bar> / q < of_int (2 ^ 53)" using q by (simp add: pos_divide_less_eq)
  moreover define t where "t = x / q"
  ultimately have "\<bar>t\<bar> < of_int (2 ^ 53)" using q by (simp add: abs_divide)
  then have "t \<le> of_int (2 ^ 53)" "of_int (- (2 ^ 53)) \<le> t"
    by (auto simp: abs_less_iff)
  then have b: "x / q \<le> of_int (2 ^ 53)" "of_int (- (2 ^ 53)) \<le> x / q"
    unfolding t_def by blast+
  have "fsig x \<le> 2 ^ 53" using rhe_mono[OF b(1)] by (simp only: rhe_of_int fsig_def q_def)
  moreover have "- (2 ^ 53) \<le> fsig x" using rhe_mono[OF b(2)] by (simp only: rhe_of_int fsig_def q_def)
  ultimately show ?thesis by linarith
qed

lemma fsig_normal_ge:
  assumes "2 powi (- 1022) \<le> x"
  shows "2 ^ 52 \<le> fsig x"
proof -
  define q :: rat where "q = 2 powi (fexp x - 52)"
  have q: "0 < q" unfolding q_def by (rule pow2_pos)
  have x: "0 < x" using assms pow2_pos[of "- 1022"] by linarith
  have "of_int (2 ^ 52) * q = 2 powi (fexp x)" unfolding q_def by (rule pow2_52[symmetric])
  also have "\<dots> \<le> x" using fexp_normal(2)[of x] assms x by simp
  finally have "of_int (2 ^ 52) \<le> x / q" using q by (simp add: pos_le_divide_eq)
  from rhe_mono[OF this] show ?thesis by (simp only: rhe_of_int fsig_def q_def)
qed


lemma big_consts:
  "two_1024 = 18014398509481984 * 2 powi 970"
  "(2::rat) powi 1023 = 9007199254740992 * 2 powi 970"
  "(2::rat) powi 971 = 2 * 2 powi 970"
proof -
  have "(2::rat) powi 1024 = 2 powi (54 + 970)" by simp
  also have "\<dots> = 2 powi 54 * 2 powi 970" by (rule pow2_add)
  finally show "two_1024 = 18014398509481984 * 2 powi 970" by (simp add: two_1024_def)
  have "(2::rat) powi 1023 = 2 powi (53 + 970)" by simp
  also have "\<dots> = 2 powi 53 * 2 powi 970" by (rule pow2_add)
  finally show "(2::rat) powi 1023 = 9007199254740992 * 2 powi 970" by simp
  have "(2::rat) powi 971 = 2 powi (1 + 970)" by simp
  also have "\<dots> = 2 powi 1 * 2 powi 970" by (rule pow2_add)
  finally show "(2::rat) powi 971 = 2 * 2 powi 970" by simp
qed

lemma abs_fl_val:
  assumes "x \<noteq> 0" "fl x = Fin y"
  shows "y = of_int (fsig x) * 2 powi (fexp x - 52)" "\<bar>y\<bar> < two_1024"
  using assms by (simp_all add: fl_sig split: if_splits)

lemma fl_not_NaN: "fl x \<noteq> NaN"
  by (cases "x = 0") (simp_all add: fl_0 fl_sig)

lemma fl_abs_le_pow:
  assumes "x \<noteq> 0"
  shows "\<bar>rat_of_int (fsig x) * 2 powi (fexp x - 52)\<bar> \<le> 2 powi (fexp x + 1)"
proof -
  have "\<bar>rat_of_int (fsig x)\<bar> \<le> of_int (2 ^ 53)"
    using fsig_abs_le[OF assms] by (metis of_int_abs of_int_le_iff)
  then have "\<bar>rat_of_int (fsig x)\<bar> * 2 powi (fexp x - 52) \<le> of_int (2 ^ 53) * 2 powi (fexp x - 52)"
    by (rule mult_right_mono) (use pow2_pos[of "fexp x - 52"] in simp)
  then show ?thesis using pow2_pos[of "fexp x - 52"] by (simp only: pow2_53 abs_mult abs_of_pos)
qed

lemma fexp_big:
  assumes "1023 \<le> fexp x" "x \<noteq> 0"
  shows "2 powi (fexp x) \<le> \<bar>x\<bar>"
proof -
  have i: "fexp x = ilog2 \<bar>x\<bar>" using assms by (simp add: fexp_def max_def split: if_splits)
  show ?thesis using ilog2_bounds[of "\<bar>x\<bar>"] i assms(2) by simp
qed

lemma int_lt_pow53: "n < 9007199254740992 \<longleftrightarrow> rat_of_int n \<le> 9007199254740991"
proof -
  have "n < 9007199254740992 \<longleftrightarrow> n \<le> 9007199254740991" by linarith
  then show ?thesis by simp
qed

lemma fl_finite_iff_pos:
  assumes "0 < x"
  shows "(\<exists>y. fl x = Fin y) \<longleftrightarrow> x < fl_threshold"
proof -
  define u :: rat where "u = 2 powi 970"
  have u: "0 < u" unfolding u_def by (rule pow2_pos)
  note bc = big_consts[folded u_def]
  define e where "e = fexp x"
  define q :: rat where "q = 2 powi (e - 52)"
  define n where "n = fsig x"
  have q: "0 < q" unfolding q_def by (rule pow2_pos)
  have x0: "x \<noteq> 0" using assms by simp
  have fin: "(\<exists>y. fl x = Fin y) \<longleftrightarrow> \<bar>of_int n * q\<bar> < two_1024"
    using x0 assms by (simp add: fl_sig n_def q_def e_def)
  have T: "fl_threshold = 18014398509481983 * u" by (simp add: fl_threshold_def bc u_def)
  have nq: "n = round_half_even (x / q)" by (simp add: n_def fsig_def e_def q_def)
  have n0: "0 \<le> n" unfolding nq using assms q by (intro rhe_nonneg) simp
  have absn: "\<bar>of_int n * q\<bar> = of_int n * q" using n0 q by simp
  consider "e \<le> 1022" | "e = 1023" | "1024 \<le> e" by linarith
  then show ?thesis
  proof cases
    case 1
    then have le: "(2::rat) powi (e + 1) \<le> 2 powi 1023" by (intro pow2_mono) simp
    have "\<bar>of_int n * q\<bar> \<le> 2 powi (e + 1)"
      using fl_abs_le_pow[OF x0] by (simp add: n_def q_def e_def)
    then have "\<bar>of_int n * q\<bar> < two_1024" using le bc u by linarith
    moreover have "x < 2 powi (e + 1)" using abs_lt_fexp[OF x0] assms by (simp add: e_def)
    then have "x < fl_threshold" using le T bc u by linarith
    ultimately show ?thesis using fin by simp
  next
    case 2
    have qu: "q = 2 * u" unfolding q_def 2 using bc(3) by (simp add: u_def)
    define t where "t = x / q"
    have xt: "x = t * (2 * u)" unfolding t_def qu using u by simp
    have nt: "n = round_half_even t" by (simp add: nq t_def)
    have "of_int n * q < two_1024 \<longleftrightarrow> rat_of_int n * (2 * u) < 18014398509481984 * u"
      by (simp add: qu bc(1))
    also have "\<dots> \<longleftrightarrow> rat_of_int n < 9007199254740992" using u by (simp add: field_simps)
    also have "\<dots> \<longleftrightarrow> t < 9007199254740991 + 1 / 2"
    proof
      assume "rat_of_int n < 9007199254740992"
      then have "rat_of_int n \<le> 9007199254740991" using int_lt_pow53[of n] by simp
      moreover have "t - 1 / 2 \<le> of_int n" unfolding nt by (rule rhe_bounds)
      ultimately have le: "t \<le> 9007199254740991 + 1 / 2" by linarith
      show "t < 9007199254740991 + 1 / 2"
      proof (rule ccontr)
        assume "\<not> t < 9007199254740991 + 1 / 2"
        then have "t = of_int 9007199254740991 + 1 / 2" using le by simp
        then have "n = 9007199254740992" unfolding nt by (simp only: rhe_tie) simp
        then show False using \<open>rat_of_int n < 9007199254740992\<close> by simp
      qed
    next
      assume "t < 9007199254740991 + 1 / 2"
      moreover have "of_int n \<le> t + 1 / 2" unfolding nt by (rule rhe_bounds)
      ultimately show "rat_of_int n < 9007199254740992" by linarith
    qed
    also have "\<dots> \<longleftrightarrow> x < fl_threshold" unfolding T xt using u by (simp add: field_simps)
    finally show ?thesis using fin absn by simp
  next
    case 3
    have ex: "2 powi e \<le> x" using fexp_big[of x] 3 x0 assms by (simp add: e_def)
    have "two_1024 \<le> 2 powi e" unfolding two_1024_def using 3 by (intro pow2_mono) simp
    then have big: "two_1024 \<le> x" using ex by linarith
    then have nT: "\<not> x < fl_threshold" using u by (simp add: fl_threshold_def u_def)
    have "2 powi (- 1022) \<le> x"
    proof -
      have "(2::rat) powi (- 1022) \<le> 2 powi e" using 3 by (intro pow2_mono) simp
      then show ?thesis using ex by linarith
    qed
    then have "2 ^ 52 \<le> n" unfolding n_def by (rule fsig_normal_ge)
    then have "rat_of_int (2 ^ 52) \<le> of_int n" by (simp only: of_int_le_iff)
    then have "rat_of_int (2 ^ 52) * q \<le> of_int n * q" by (rule mult_right_mono) (use q in simp)
    then have "2 powi e \<le> of_int n * q" unfolding q_def by (simp only: pow2_52[symmetric])
    then have "two_1024 \<le> \<bar>of_int n * q\<bar>" using \<open>two_1024 \<le> 2 powi e\<close> absn by linarith
    then show ?thesis using fin nT by simp
  qed
qed

lemma fneg_Fin_iff: "(\<exists>y. fneg f = Fin y) \<longleftrightarrow> (\<exists>y. f = Fin y)"
  by (cases f) auto

lemma fl_threshold_pos: "0 < fl_threshold"
proof -
  have "0 < (2::rat) powi 970" by (rule pow2_pos)
  then show ?thesis by (simp add: fl_threshold_def big_consts(1))
qed

lemma fl_finite_iff: "(\<exists>y. fl x = Fin y) \<longleftrightarrow> \<bar>x\<bar> < fl_threshold"
proof -
  consider "x = 0" | "0 < x" | "x < 0" by linarith
  then show ?thesis
  proof cases
    case 1 then show ?thesis using fl_threshold_pos by (simp add: fl_0)
  next
    case 2 then show ?thesis using fl_finite_iff_pos[of x] by simp
  next
    case 3
    then have "(\<exists>y. fl (- x) = Fin y) \<longleftrightarrow> - x < fl_threshold"
      using fl_finite_iff_pos[of "- x"] by simp
    then show ?thesis using 3 by (simp add: fl_minus fneg_Fin_iff)
  qed
qed

lemma fl_max:
  assumes "fl x = Fin y"
  shows "\<bar>y\<bar> \<le> max_double"
proof (cases "x = 0")
  case True
  have "0 < (2::rat) powi 970" by (rule pow2_pos)
  then show ?thesis using assms True by (simp add: fl_0 max_double_def big_consts)
next
  case False
  define u :: rat where "u = 2 powi 970"
  have u: "0 < u" unfolding u_def by (rule pow2_pos)
  note bc = big_consts[folded u_def]
  define e where "e = fexp x"
  define q :: rat where "q = 2 powi (e - 52)"
  define n where "n = fsig x"
  have q: "0 < q" unfolding q_def by (rule pow2_pos)
  have y: "y = of_int n * q" "\<bar>y\<bar> < two_1024"
    using abs_fl_val[OF False assms] by (simp_all add: n_def q_def e_def)
  have M: "max_double = 18014398509481982 * u" by (simp add: max_double_def bc u_def)
  have xT: "\<bar>x\<bar> < fl_threshold" using fl_finite_iff[of x] assms by auto
  have "e \<le> 1023"
  proof (rule ccontr)
    assume "\<not> e \<le> 1023"
    then have 3: "1024 \<le> e" by simp
    then have "2 powi e \<le> \<bar>x\<bar>" using fexp_big[of x] False by (simp add: e_def)
    moreover have "two_1024 \<le> 2 powi e" unfolding two_1024_def using 3 by (intro pow2_mono) simp
    ultimately show False using xT u by (simp add: fl_threshold_def u_def)
  qed
  then consider "e \<le> 1022" | "e = 1023" by linarith
  then show ?thesis
  proof cases
    case 1
    then have le: "(2::rat) powi (e + 1) \<le> 2 powi 1023" by (intro pow2_mono) simp
    have "\<bar>y\<bar> \<le> 2 powi (e + 1)"
      using fl_abs_le_pow[OF False] by (simp add: y n_def q_def e_def)
    then show ?thesis using le M bc u by linarith
  next
    case 2
    have qu: "q = 2 * u" unfolding q_def 2 using bc(3) by (simp add: u_def)
    define m where "m = \<bar>n\<bar>"
    have "\<bar>y\<bar> = \<bar>rat_of_int n\<bar> * (2 * u)" using u by (simp add: y qu abs_mult)
    then have ay: "\<bar>y\<bar> = rat_of_int m * (2 * u)" by (simp add: m_def)
    have "rat_of_int m * (2 * u) < 18014398509481984 * u" using y(2) by (simp add: ay bc(1))
    then have "rat_of_int m < 9007199254740992" using u by (simp add: field_simps)
    then have "m < 9007199254740992" by simp
    then have "rat_of_int m \<le> 9007199254740991" by (simp only: int_lt_pow53)
    then have "rat_of_int m * (2 * u) \<le> 9007199254740991 * (2 * u)"
      by (rule mult_right_mono) (use u in simp)
    then show ?thesis by (simp add: ay M)
  qed
qed

lemma max_double_lt_threshold: "max_double < fl_threshold"
proof -
  have "0 < (2::rat) powi 970" by (rule pow2_pos)
  then show ?thesis by (simp add: max_double_def fl_threshold_def big_consts)
qed

lemma fl_nonneg:
  assumes "0 \<le> x" "fl x = Fin y" shows "0 \<le> y"
proof (cases "x = 0")
  case True then show ?thesis using assms by (simp add: fl_0)
next
  case False
  have "0 \<le> fsig x" unfolding fsig_def using assms(1) pow2_pos[of "fexp x - 52"]
    by (intro rhe_nonneg) simp
  then show ?thesis using abs_fl_val(1)[OF False assms(2)] pow2_pos[of "fexp x - 52"] by simp
qed

lemma fl_ge_pow2:
  assumes "2 powi k \<le> x" "- 1074 \<le> k" "fl x = Fin y"
  shows "2 powi k \<le> y"
proof -
  have x: "0 < x" using assms(1) pow2_pos[of k] by linarith
  then have x0: "x \<noteq> 0" by simp
  define e where "e = fexp x"
  define q :: rat where "q = 2 powi (e - 52)"
  define n where "n = fsig x"
  have q: "0 < q" unfolding q_def by (rule pow2_pos)
  have y: "y = of_int n * q"
    using abs_fl_val[OF x0 assms(3)] by (simp_all add: n_def q_def e_def)
  show ?thesis
  proof (cases "2 powi (- 1022) \<le> x")
    case True
    then have "2 ^ 52 \<le> n" unfolding n_def by (rule fsig_normal_ge)
    then have "rat_of_int (2 ^ 52) \<le> of_int n" by (simp only: of_int_le_iff)
    then have "rat_of_int (2 ^ 52) * q \<le> of_int n * q" by (rule mult_right_mono) (use q in simp)
    then have ye: "2 powi e \<le> y" unfolding q_def y by (simp only: pow2_52[symmetric])
    have "x < 2 powi (e + 1)" using abs_lt_fexp[OF x0] x by (simp add: e_def)
    then have "(2::rat) powi k < 2 powi (e + 1)" using assms(1) by linarith
    then have "k < e + 1" by (rule pow2_le_imp_le)
    then have "(2::rat) powi k \<le> 2 powi e" by (intro pow2_mono) simp
    then show ?thesis using ye by linarith
  next
    case False
    then have e: "e = - 1022" using fexp_subnormal[of x] x by (simp add: e_def)
    define j where "j = nat (k + 1074)"
    have "(2::rat) powi k = 2 powi (int j + (- 1074))" using assms(2) by (simp add: j_def)
    also have "\<dots> = 2 powi (int j) * 2 powi (- 1074)" by (rule pow2_add)
    finally have pk: "(2::rat) powi k = of_int (2 ^ j) * q" by (simp add: q_def e)
    then have "of_int (2 ^ j) \<le> x / q" using assms(1) q by (simp add: pos_le_divide_eq)
    from rhe_mono[OF this] have "2 ^ j \<le> n" by (simp only: rhe_of_int n_def fsig_def q_def e_def)
    then have "rat_of_int (2 ^ j) \<le> of_int n" by (simp only: of_int_le_iff)
    then have "rat_of_int (2 ^ j) * q \<le> of_int n * q" by (rule mult_right_mono) (use q in simp)
    then show ?thesis by (simp only: pk y)
  qed
qed


lemma fl_exact:
  assumes "\<bar>m\<bar> < 2 ^ 53" "- 1074 \<le> k" "k \<le> 970"
  shows "fl (of_int m * 2 powi k) = Fin (of_int m * 2 powi k)"
proof (cases "m = 0")
  case True then show ?thesis by (simp add: fl_0)
next
  case False
  define x :: rat where "x = of_int m * 2 powi k"
  have x0: "x \<noteq> 0" using False by (simp add: x_def)
  define e where "e = fexp x"
  define q :: rat where "q = 2 powi (e - 52)"
  have q: "0 < q" unfolding q_def by (rule pow2_pos)
  define a where "a = rat_of_int \<bar>m\<bar>"
  define p :: rat where "p = 2 powi k"
  have p: "0 < p" unfolding p_def by (rule pow2_pos)
  have "a < of_int (2 ^ 53)" unfolding a_def using assms(1) by (simp only: of_int_less_iff)
  then have "a * p < of_int (2 ^ 53) * p" using p by (rule mult_strict_right_mono)
  moreover have "\<bar>x\<bar> = a * p" using p by (simp add: x_def abs_mult a_def p_def)
  moreover have "of_int (2 ^ 53) * p = (2::rat) powi (53 + k)"
    unfolding p_def using pow2_add[of 53 k] by simp
  ultimately have xlt: "\<bar>x\<bar> < 2 powi (53 + k)" by (simp only:)
  have ek: "e \<le> k + 52"
  proof (cases "2 powi (- 1022) \<le> \<bar>x\<bar>")
    case True
    then have "2 powi e \<le> \<bar>x\<bar>" unfolding e_def by (rule fexp_normal)
    then have "(2::rat) powi e < 2 powi (53 + k)" using xlt by linarith
    then have "e < 53 + k" by (rule pow2_le_imp_le)
    then show ?thesis by simp
  next
    case False
    then have "e = - 1022" using fexp_subnormal[of x] x0 by (simp add: e_def)
    then show ?thesis using assms(2) by simp
  qed
  define j where "j = nat (k + 52 - e)"
  have "(2::rat) powi k = 2 powi (int j + (e - 52))" using ek by (simp add: j_def)
  also have "\<dots> = 2 powi (int j) * 2 powi (e - 52)" by (rule pow2_add)
  finally have pk: "(2::rat) powi k = of_int (2 ^ j) * q" by (simp add: q_def)
  have xq: "x = of_int (m * 2 ^ j) * q" by (simp add: x_def pk)
  then have "x / q = of_int (m * 2 ^ j)" using q by simp
  then have sig: "fsig x = m * 2 ^ j" unfolding fsig_def e_def[symmetric] q_def[symmetric]
    by (simp only: rhe_of_int)
  have val: "rat_of_int (fsig x) * 2 powi (fexp x - 52) = x"
    unfolding sig e_def[symmetric] q_def[symmetric] by (simp only: xq[symmetric])
  have "(2::rat) powi (53 + k) \<le> 2 powi 1023" using assms(3) by (intro pow2_mono) simp
  moreover have "(2::rat) powi 1023 < two_1024"
    unfolding two_1024_def by (rule pow2_strict_mono) simp
  ultimately have "\<bar>x\<bar> < two_1024" using xlt by linarith
  then have "fl x = Fin x" unfolding fl_sig[OF x0] val by simp
  then show ?thesis by (simp only: x_def)
qed

lemma fl_cert_gen:
  assumes "2 powi e \<le> x" "x < 2 powi (e + 1)" "- 1022 \<le> e" "e \<le> 1022"
    "round_half_even (x / 2 powi (e - 52)) = n"
  shows "fl x = Fin (of_int n * 2 powi (e - 52))"
proof -
  have x: "0 < x" using assms(1) pow2_pos[of e] by linarith
  then have x0: "x \<noteq> 0" by simp
  have "ilog2 \<bar>x\<bar> = e" using ilog2_unique[of x e] assms(1,2) x by simp
  then have fe: "fexp x = e" using assms(3) by (simp add: fexp_def)
  have sig: "fsig x = n" unfolding fsig_def fe by (rule assms(5))
  have "\<bar>rat_of_int (fsig x) * 2 powi (fexp x - 52)\<bar> \<le> 2 powi (fexp x + 1)"
    by (rule fl_abs_le_pow[OF x0])
  moreover have "(2::rat) powi (e + 1) \<le> 2 powi 1023" using assms(4) by (intro pow2_mono) simp
  moreover have "(2::rat) powi 1023 < two_1024"
    unfolding two_1024_def by (rule pow2_strict_mono) simp
  ultimately have "\<bar>rat_of_int n * 2 powi (e - 52)\<bar> < two_1024" unfolding sig fe by linarith
  then show ?thesis unfolding fl_sig[OF x0] sig fe by simp
qed

text \<open>Evaluating \<open>fl\<close> and \<open>round_half_even\<close> at a given rational: the exponent \<open>e\<close> and the
  significand \<open>n\<close> are supplied and checked.\<close>

lemma fl_cert:
  assumes "2 powi e \<le> x" "x < 2 powi (e + 1)" "- 1022 \<le> e" "e \<le> 1022"
    "of_int n - 1 / 2 < x / 2 powi (e - 52)" "x / 2 powi (e - 52) < of_int n + 1 / 2"
  shows "fl x = Fin (of_int n * 2 powi (e - 52))"
  using assms(1-4) by (rule fl_cert_gen) (rule rhe_eqI[OF assms(5,6)])

lemma fl_cert_tie:
  assumes "2 powi e \<le> x" "x < 2 powi (e + 1)" "- 1022 \<le> e" "e \<le> 1022"
    "x / 2 powi (e - 52) = of_int m + 1 / 2" "n = (if even m then m else m + 1)"
  shows "fl x = Fin (of_int n * 2 powi (e - 52))"
  using assms(1-4) by (rule fl_cert_gen) (simp only: assms(5,6) rhe_tie)

lemma rhe_numeral: "round_half_even (numeral w) = numeral w"
  using rhe_of_int[of "numeral w"] by simp

lemma rhe_zero: "round_half_even 0 = 0"
  using rhe_of_int[of 0] by simp

lemma rhe_one: "round_half_even 1 = 1"
  using rhe_of_int[of 1] by simp

lemma rhe_neg_numeral: "round_half_even (- numeral w) = - numeral w"
  using rhe_of_int[of "- numeral w"] by simp

section \<open>Exceptions and the steps of the calculator\<close>

lemma exc_bind_Inr: "exc_bind (Inr x) f = f x"
  by (simp add: exc_bind_def)

lemma exc_bind_Inl: "exc_bind (Inl e) f = Inl e"
  by (simp add: exc_bind_def)

lemma exc_bind_eq_Inr: "exc_bind m f = Inr y \<longleftrightarrow> (\<exists>x. m = Inr x \<and> f x = Inr y)"
  by (cases m) (simp_all add: exc_bind_def)

lemma exc_bind_weak_cong: "m = m' \<Longrightarrow> exc_bind m f = exc_bind m' f"
  by simp

lemma calc_unfold:
  "calculate_forge_specs now u =
     exc_bind (fdiv (volume_of u) (cfloat HOLE_COVERAGE_CI)) (\<lambda>raw_holes.
     exc_bind (py_round raw_holes) (\<lambda>rounded_holes.
     exc_bind (int_truediv (max MIN_BURNER_HOLES rounded_holes) BURNER_ROWS) (\<lambda>per_row.
     exc_bind (py_round per_row) (\<lambda>holes_per_row.
     exc_bind (int_to_float holes_per_row) (\<lambda>holes_per_row_f.
     exc_bind (py_round_nd (fadd (fmul holes_per_row_f HOLE_SPACING) (fl (3 / 2))) 1)
       (\<lambda>burner_length.
     exc_bind (fdiv (volume_of u) (cfloat HOLE_COVERAGE_CI)) (\<lambda>raw_holes2.
     exc_bind (py_round (fmul raw_holes2 (fl (12 / 10)))) (\<lambda>cfm_required.
     exc_bind (int_to_float cfm_required) (\<lambda>cfm_required_f.
     exc_bind (py_round (fmul cfm_required_f (fl (125 / 100)))) (\<lambda>cfm_recommended.
     exc_bind (fdiv (fsub (fmul (fmul (ext_w_of u) (ext_h_of u)) (ext_l_of u)) (volume_of u))
                 (cfloat 1728)) (\<lambda>refractory_volume_cf.
     exc_bind (fdiv (fmul refractory_volume_cf (cfloat REFRACTORY_DENSITY_LB_PER_CF))
                 (cfloat REFRACTORY_BAG_SIZE_LB)) (\<lambda>bags_raw.
     exc_bind (py_round_nd bags_raw 1) (\<lambda>refractory_bags.
     exc_bind (py_round_nd (fmul (width u) (fl (85 / 100))) 1) (\<lambda>front_door_w.
     exc_bind (py_round_nd (fmul (height u) (fl (85 / 100))) 1) (\<lambda>front_door_h.
     exc_bind
       (if door_config_in u = 2
        then exc_bind (py_round_nd (fmul (width u) (fl (7 / 10))) 1) (\<lambda>rw.
             exc_bind (py_round_nd (fmul (height u) (fl (75 / 100))) 1) (\<lambda>rh.
             Inr (PyFloat rw, PyFloat rh)))
        else Inr (PyInt 0, PyInt 0)) (\<lambda>rear.
     exc_bind (py_round_nd (fadd (cfloat COST_BASE_MATERIALS)
                (fmul refractory_bags (cfloat COST_REFRACTORY_PER_BAG))) 2) (\<lambda>estimated_cost.
     exc_bind (py_round (fmul (volume_of u) (cfloat BTU_PER_CUBIC_INCH))) (\<lambda>btu_required.
     exc_bind (fdiv (fadd (fadd (fmul (fmul (ext_l_of u) (ext_h_of u)) (cfloat 2))
                                (fmul (ext_l_of u) (ext_w_of u)))
                          (fmul (fmul (ext_w_of u) (ext_h_of u)) (cfloat 2))) (cfloat 144))
       (\<lambda>blanket_raw.
     exc_bind (py_round_nd blanket_raw 1) (\<lambda>blanket_sqft.
     exc_bind (fdiv (fmul (ext_l_of u) (ext_w_of u)) (cfloat 72)) (\<lambda>floor_raw.
     exc_bind (py_round floor_raw) (\<lambda>floor_rounded.
     exc_bind (py_round_nd (fmul refractory_volume_cf (cfloat REFRACTORY_DENSITY_LB_PER_CF)) 1)
       (\<lambda>refractory_weight_1.
     Inr \<lparr>internal_w = width u, internal_h = height u, internal_l = length_in u,
          insulation = insulation_in u, door_config = door_config_in u,
          internal_volume = volume_of u,
          external_w = ext_w_of u, external_h = ext_h_of u, external_l = ext_l_of u,
          burner_holes = holes_per_row * BURNER_ROWS, holes_per_row = holes_per_row,
          burner_rows = BURNER_ROWS,
          burner_length = burner_length, burner_width = fl 3,
          cfm_required = cfm_required, cfm_recommended = cfm_recommended,
          static_pressure = (if flt (volume_of u) 500 then ''1.5'' else ''3.0''),
          refractory_bags = refractory_bags, refractory_weight = refractory_weight_1,
          blanket_sqft = blanket_sqft,
          ifb_floor = max 2 floor_rounded,
          ifb_doors = (if door_config_in u = 1 then 4 else 6),
          front_door_w = front_door_w, front_door_h = front_door_h,
          rear_door_w = fst rear, rear_door_h = snd rear,
          steel_cuts = calculate_steel_cuts (ext_w_of u) (ext_h_of u) (ext_l_of u)
                         front_door_w front_door_h,
          btu_required = btu_required, estimated_cost = estimated_cost,
          generated_date = now\<rparr>)))))))))))))))))))))))"
  unfolding calculate_forge_specs_def Let_def volume_of_def ext_w_of_def ext_h_of_def ext_l_of_def
    case_prod_beta
  by (rule refl)

text \<open>What a successful run went through, step by step, and what it returned.\<close>

lemma calc_InrE:
  assumes "calculate_forge_specs now u = Inr s"
  obtains raw r0 q hf cf rvcf braw blraw flraw flr where
    "fdiv (volume_of u) (cfloat HOLE_COVERAGE_CI) = Inr raw"
    "py_round raw = Inr r0"
    "int_truediv (max MIN_BURNER_HOLES r0) BURNER_ROWS = Inr q"
    "py_round q = Inr (holes_per_row s)"
    "int_to_float (holes_per_row s) = Inr hf"
    "py_round_nd (fadd (fmul hf HOLE_SPACING) (fl (3 / 2))) 1 = Inr (burner_length s)"
    "py_round (fmul raw (fl (12 / 10))) = Inr (cfm_required s)"
    "int_to_float (cfm_required s) = Inr cf"
    "py_round (fmul cf (fl (125 / 100))) = Inr (cfm_recommended s)"
    "fdiv (fsub (fmul (fmul (ext_w_of u) (ext_h_of u)) (ext_l_of u)) (volume_of u))
       (cfloat 1728) = Inr rvcf"
    "fdiv (fmul rvcf (cfloat REFRACTORY_DENSITY_LB_PER_CF)) (cfloat REFRACTORY_BAG_SIZE_LB)
       = Inr braw"
    "py_round_nd braw 1 = Inr (refractory_bags s)"
    "py_round_nd (fmul (width u) (fl (85 / 100))) 1 = Inr (front_door_w s)"
    "py_round_nd (fmul (height u) (fl (85 / 100))) 1 = Inr (front_door_h s)"
    "(if door_config_in u = 2
      then exc_bind (py_round_nd (fmul (width u) (fl (7 / 10))) 1) (\<lambda>rw.
           exc_bind (py_round_nd (fmul (height u) (fl (75 / 100))) 1) (\<lambda>rh.
           Inr (PyFloat rw, PyFloat rh)))
      else Inr (PyInt 0, PyInt 0)) = Inr (rear_door_w s, rear_door_h s)"
    "py_round_nd (fadd (cfloat COST_BASE_MATERIALS)
       (fmul (refractory_bags s) (cfloat COST_REFRACTORY_PER_BAG))) 2 = Inr (estimated_cost s)"
    "py_round (fmul (volume_of u) (cfloat BTU_PER_CUBIC_INCH)) = Inr (btu_required s)"
    "fdiv (fadd (fadd (fmul (fmul (ext_l_of u) (ext_h_of u)) (cfloat 2))
                      (fmul (ext_l_of u) (ext_w_of u)))
                (fmul (fmul (ext_w_of u) (ext_h_of u)) (cfloat 2))) (cfloat 144) = Inr blraw"
    "py_round_nd blraw 1 = Inr (blanket_sqft s)"
    "fdiv (fmul (ext_l_of u) (ext_w_of u)) (cfloat 72) = Inr flraw"
    "py_round flraw = Inr flr"
    "py_round_nd (fmul rvcf (cfloat REFRACTORY_DENSITY_LB_PER_CF)) 1 = Inr (refractory_weight s)"
    "internal_w s = width u" "internal_h s = height u" "internal_l s = length_in u"
    "insulation s = insulation_in u" "door_config s = door_config_in u"
    "internal_volume s = volume_of u"
    "external_w s = ext_w_of u" "external_h s = ext_h_of u" "external_l s = ext_l_of u"
    "burner_holes s = holes_per_row s * BURNER_ROWS" "burner_rows s = BURNER_ROWS"
    "burner_width s = fl 3"
    "static_pressure s = (if flt (volume_of u) 500 then ''1.5'' else ''3.0'')"
    "ifb_floor s = max 2 flr" "ifb_doors s = (if door_config_in u = 1 then 4 else 6)"
    "steel_cuts s = calculate_steel_cuts (ext_w_of u) (ext_h_of u) (ext_l_of u)
                      (front_door_w s) (front_door_h s)"
    "generated_date s = now"
proof -
  from assms[unfolded calc_unfold exc_bind_eq_Inr]
  obtain raw r0 q hpr hf bl raw2 cfm cf rec rvcf braw bags fdw fdh rear cost btu blraw blanket
    flraw flr w1 where
    s: "Inr \<lparr>internal_w = width u, internal_h = height u, internal_l = length_in u,
          insulation = insulation_in u, door_config = door_config_in u,
          internal_volume = volume_of u,
          external_w = ext_w_of u, external_h = ext_h_of u, external_l = ext_l_of u,
          burner_holes = hpr * BURNER_ROWS, holes_per_row = hpr,
          burner_rows = BURNER_ROWS,
          burner_length = bl, burner_width = fl 3,
          cfm_required = cfm, cfm_recommended = rec,
          static_pressure = (if flt (volume_of u) 500 then ''1.5'' else ''3.0''),
          refractory_bags = bags, refractory_weight = w1,
          blanket_sqft = blanket,
          ifb_floor = max 2 flr,
          ifb_doors = (if door_config_in u = 1 then 4 else 6),
          front_door_w = fdw, front_door_h = fdh,
          rear_door_w = fst rear, rear_door_h = snd rear,
          steel_cuts = calculate_steel_cuts (ext_w_of u) (ext_h_of u) (ext_l_of u) fdw fdh,
          btu_required = btu, estimated_cost = cost,
          generated_date = now\<rparr> = (Inr s :: py_error + specs)"
    and st:
    "fdiv (volume_of u) (cfloat HOLE_COVERAGE_CI) = Inr raw"
    "py_round raw = Inr r0"
    "int_truediv (max MIN_BURNER_HOLES r0) BURNER_ROWS = Inr q"
    "py_round q = Inr hpr"
    "int_to_float hpr = Inr hf"
    "py_round_nd (fadd (fmul hf HOLE_SPACING) (fl (3 / 2))) 1 = Inr bl"
    "fdiv (volume_of u) (cfloat HOLE_COVERAGE_CI) = Inr raw2"
    "py_round (fmul raw2 (fl (12 / 10))) = Inr cfm"
    "int_to_float cfm = Inr cf"
    "py_round (fmul cf (fl (125 / 100))) = Inr rec"
    "fdiv (fsub (fmul (fmul (ext_w_of u) (ext_h_of u)) (ext_l_of u)) (volume_of u))
       (cfloat 1728) = Inr rvcf"
    "fdiv (fmul rvcf (cfloat REFRACTORY_DENSITY_LB_PER_CF)) (cfloat REFRACTORY_BAG_SIZE_LB)
       = Inr braw"
    "py_round_nd braw 1 = Inr bags"
    "py_round_nd (fmul (width u) (fl (85 / 100))) 1 = Inr fdw"
    "py_round_nd (fmul (height u) (fl (85 / 100))) 1 = Inr fdh"
    "(if door_config_in u = 2
      then exc_bind (py_round_nd (fmul (width u) (fl (7 / 10))) 1) (\<lambda>rw.
           exc_bind (py_round_nd (fmul (height u) (fl (75 / 100))) 1) (\<lambda>rh.
           Inr (PyFloat rw, PyFloat rh)))
      else Inr (PyInt 0, PyInt 0)) = Inr rear"
    "py_round_nd (fadd (cfloat COST_BASE_MATERIALS)
       (fmul bags (cfloat COST_REFRACTORY_PER_BAG))) 2 = Inr cost"
    "py_round (fmul (volume_of u) (cfloat BTU_PER_CUBIC_INCH)) = Inr btu"
    "fdiv (fadd (fadd (fmul (fmul (ext_l_of u) (ext_h_of u)) (cfloat 2))
                      (fmul (ext_l_of u) (ext_w_of u)))
                (fmul (fmul (ext_w_of u) (ext_h_of u)) (cfloat 2))) (cfloat 144) = Inr blraw"
    "py_round_nd blraw 1 = Inr blanket"
    "fdiv (fmul (ext_l_of u) (ext_w_of u)) (cfloat 72) = Inr flraw"
    "py_round flraw = Inr flr"
    "py_round_nd (fmul rvcf (cfloat REFRACTORY_DENSITY_LB_PER_CF)) 1 = Inr w1"
    by (elim exE conjE) (rule that, assumption+)
  have raw2: "raw2 = raw" using st(1,7) by simp
  from s have s': "s = \<lparr>internal_w = width u, internal_h = height u, internal_l = length_in u,
          insulation = insulation_in u, door_config = door_config_in u,
          internal_volume = volume_of u,
          external_w = ext_w_of u, external_h = ext_h_of u, external_l = ext_l_of u,
          burner_holes = hpr * BURNER_ROWS, holes_per_row = hpr,
          burner_rows = BURNER_ROWS,
          burner_length = bl, burner_width = fl 3,
          cfm_required = cfm, cfm_recommended = rec,
          static_pressure = (if flt (volume_of u) 500 then ''1.5'' else ''3.0''),
          refractory_bags = bags, refractory_weight = w1,
          blanket_sqft = blanket,
          ifb_floor = max 2 flr,
          ifb_doors = (if door_config_in u = 1 then 4 else 6),
          front_door_w = fdw, front_door_h = fdh,
          rear_door_w = fst rear, rear_door_h = snd rear,
          steel_cuts = calculate_steel_cuts (ext_w_of u) (ext_h_of u) (ext_l_of u) fdw fdh,
          btu_required = btu, estimated_cost = cost,
          generated_date = now\<rparr>"
    by (simp only: sum.inject)
  show ?thesis
    by (rule that[of raw r0 q hf cf rvcf braw blraw flraw flr])
       (use st raw2 in \<open>simp_all add: s'\<close>)
qed

section \<open>Which steps can raise\<close>

lemma fl_bounded: "fbounded (fl x)"
  by (cases "fl x") (simp_all add: fl_max)

lemma fmul_bounded: "fbounded (fmul a b)"
  by (cases a; cases b) (simp_all add: fl_bounded)

lemma fadd_bounded: "fbounded (fadd a b)"
  by (cases a; cases b) (simp_all add: fl_bounded)

lemma max_double_nonneg: "0 \<le> max_double"
  using fl_max[of 0 0] by (simp add: fl_0)

lemma fdiv_bounded: "fdiv a b = Inr r \<Longrightarrow> fbounded r"
  by (cases a; cases b) (auto simp: fl_bounded max_double_nonneg split: if_splits)

lemma fdiv_const_ok: "c \<noteq> 0 \<Longrightarrow> \<exists>r. fdiv a (cfloat c) = Inr r"
  by (cases a) (simp_all add: cfloat_def)

lemma fl_finiteE:
  assumes "\<bar>x\<bar> < fl_threshold"
  obtains y where "fl x = Fin y" "\<bar>y\<bar> \<le> 2 * \<bar>x\<bar>"
  using assms fl_finite_iff[of x] fl_abs_le2[of x] by blast

lemma fl_finiteD: "fl x = Fin y \<Longrightarrow> \<bar>x\<bar> < fl_threshold"
  using fl_finite_iff[of x] by blast

lemma threshold_large: "1000 < fl_threshold"
proof -
  have "(2::rat) powi 0 \<le> 2 powi 970" by (rule pow2_mono) simp
  then have "(1::rat) \<le> 2 powi 970" by simp
  then show ?thesis by (simp add: fl_threshold_def big_consts(1))
qed

lemma threshold_gap: "max_double + 1 / 2 < fl_threshold"
proof -
  have "(2::rat) powi 0 \<le> 2 powi 970" by (rule pow2_mono) simp
  then have "(1::rat) \<le> 2 powi 970" by simp
  then show ?thesis by (simp add: fl_threshold_def max_double_def big_consts)
qed

text \<open>\<^verbatim>\<open>round(x, n)\<close> never raises on the result of a float operation.\<close>

lemma py_round_nd_ok:
  assumes "fbounded f"
  shows "\<exists>y. py_round_nd f n = Inr y"
proof (cases f)
  case (Fin x)
  define p :: rat where "p = 10 ^ n"
  have p: "1 \<le> p" unfolding p_def by simp
  define z where "z = rat_of_int (round_half_even (x * p)) / p"
  have "\<bar>rat_of_int (round_half_even (x * p))\<bar> \<le> \<bar>x * p\<bar> + 1 / 2" by (rule rhe_abs_le)
  then have "\<bar>rat_of_int (round_half_even (x * p))\<bar> / p \<le> (\<bar>x * p\<bar> + 1 / 2) / p"
    using p by (simp add: divide_right_mono)
  also have "\<dots> = \<bar>x\<bar> + 1 / (2 * p)" using p by (simp add: abs_mult field_simps)
  also have "\<dots> \<le> \<bar>x\<bar> + 1 / 2" using p by (simp add: field_simps)
  finally have "\<bar>z\<bar> \<le> \<bar>x\<bar> + 1 / 2" using p by (simp add: z_def abs_divide)
  moreover have "\<bar>x\<bar> \<le> max_double" using assms Fin by simp
  ultimately have "\<bar>z\<bar> < fl_threshold" using threshold_gap by linarith
  then obtain y where "fl z = Fin y" by (rule fl_finiteE)
  then show ?thesis using Fin by (simp add: z_def p_def)
qed simp_all

lemma rear_ok:
  "\<exists>r. (if d = (2::int)
      then exc_bind (py_round_nd (fmul w a) 1) (\<lambda>rw.
           exc_bind (py_round_nd (fmul h b) 1) (\<lambda>rh.
           Inr (PyFloat rw, PyFloat rh)))
      else Inr (PyInt 0, PyInt 0)) = Inr r"
proof -
  obtain rw where "py_round_nd (fmul w a) 1 = Inr rw"
    using py_round_nd_ok[OF fmul_bounded] by blast
  moreover obtain rh where "py_round_nd (fmul h b) 1 = Inr rh"
    using py_round_nd_ok[OF fmul_bounded] by blast
  ultimately show ?thesis by (simp add: exc_bind_Inr)
qed

lemma fmul_FinD: "fmul a (Fin c) = Fin b \<Longrightarrow> \<exists>x. a = Fin x \<and> fl (x * c) = Fin b"
  by (cases a) (auto split: if_splits)

lemma py_round_InrD: "py_round f = Inr n \<Longrightarrow> \<exists>x. f = Fin x"
  by (cases f) simp_all

lemma fdiv_Fin_FinD: "fdiv a (Fin c) = Inr (Fin y) \<Longrightarrow> \<exists>x. a = Fin x"
  by (cases a) (auto split: if_splits)

lemma is_fin_iff: "is_fin f \<longleftrightarrow> (\<exists>x. f = Fin x)"
  by (cases f) simp_all

section \<open>Lemmas on the burner holes and on the frame lengths\<close>





section \<open>When the calculator returns\<close>

text \<open>The calculator returns as soon as the heat input \<^verbatim>\<open>internal_volume * 450\<close> and the
  floor area \<^verbatim>\<open>ext_l * ext_w\<close> are finite floats: every other argument of a \<^verbatim>\<open>round\<close> to an
  int is then finite too, the divisors are non-zero constants, and \<^verbatim>\<open>round(x, n)\<close> returns on
  every float.\<close>

lemma fl_const_bound:
  assumes "\<bar>c\<bar> \<le> 500"
  obtains y where "fl c = Fin y" "\<bar>y\<bar> \<le> 2 * \<bar>c\<bar>"
proof -
  have "\<bar>c\<bar> < fl_threshold" using assms threshold_large by linarith
  then show ?thesis by (rule fl_finiteE) (rule that)
qed

lemma calc_returns:
  assumes A: "is_fin (fmul (volume_of u) (cfloat BTU_PER_CUBIC_INCH))"
    and B: "is_fin (fmul (ext_l_of u) (ext_w_of u))"
  shows "\<exists>s. calculate_forge_specs now u = Inr s"
proof -
  define T where "T = fl_threshold"
  have T: "1000 < T" unfolding T_def by (rule threshold_large)
  from A obtain b where "fmul (volume_of u) (Fin 450) = Fin b"
    by (auto simp: is_fin_iff cfloat_def BTU_PER_CUBIC_INCH_def)
  from fmul_FinD[OF this] obtain v where v: "volume_of u = Fin v" "fl (v * 450) = Fin b"
    by blast
  define V where "V = \<bar>v\<bar>"
  have V0: "0 \<le> V" unfolding V_def by simp
  note fE = fl_finiteE[folded T_def]
  have VT: "450 * V < T" using fl_finiteD[OF v(2)] by (simp add: abs_mult V_def T_def)
  \<comment> \<open>the raw number of holes\<close>
  have "\<bar>v / 18\<bar> < T" using VT unfolding V_def by (simp add: field_simps)
  then obtain r where r: "fl (v / 18) = Fin r" "\<bar>r\<bar> \<le> 2 * \<bar>v / 18\<bar>" by (rule fE)
  define R where "R = \<bar>r\<bar>"
  have R0: "0 \<le> R" unfolding R_def by simp
  have R: "R \<le> V / 9" using r(2) unfolding V_def R_def by (simp add: field_simps)
  have s1: "fdiv (volume_of u) (cfloat HOLE_COVERAGE_CI) = Inr (Fin r)"
    by (simp add: v cfloat_def HOLE_COVERAGE_CI_def r)
  define r0 where "r0 = round_half_even r"
  have s2: "py_round (Fin r) = Inr r0" by (simp add: r0_def)
  have r0: "\<bar>rat_of_int r0\<bar> \<le> R + 1 / 2" unfolding r0_def R_def by (rule rhe_abs_le)
  \<comment> \<open>the holes per row\<close>
  define t where "t = rat_of_int (max 12 r0) / 3"
  have "\<bar>rat_of_int (max 12 r0)\<bar> \<le> 12 + \<bar>rat_of_int r0\<bar>" by (simp add: max_def)
  then have t: "\<bar>t\<bar> \<le> (12 + (R + 1 / 2)) / 3"
    using r0 unfolding t_def by (simp add: field_simps)
  then have "\<bar>t\<bar> < T" using R VT V0 T by (simp add: field_simps)
  then obtain y where y: "fl t = Fin y" "\<bar>y\<bar> \<le> 2 * \<bar>t\<bar>" by (rule fE)
  have s3: "int_truediv (max MIN_BURNER_HOLES r0) BURNER_ROWS = Inr (Fin y)"
    using y(1) by (simp add: int_truediv_def MIN_BURNER_HOLES_def BURNER_ROWS_def t_def)
  define h where "h = round_half_even y"
  have s4: "py_round (Fin y) = Inr h" by (simp add: h_def)
  have "\<bar>rat_of_int h\<bar> \<le> \<bar>y\<bar> + 1 / 2" unfolding h_def by (rule rhe_abs_le)
  then have "\<bar>rat_of_int h\<bar> < T"
    using y(2) t R VT V0 T by (simp add: field_simps)
  then obtain z where z: "fl (rat_of_int h) = Fin z" by (rule fE)
  have s5: "int_to_float h = Inr (Fin z)" by (simp add: int_to_float_def z)
  obtain bl where s6:
    "py_round_nd (fadd (fmul (Fin z) HOLE_SPACING) (fl (3 / 2))) 1 = Inr bl"
    using py_round_nd_ok[OF fadd_bounded] by blast
  \<comment> \<open>the air flow\<close>
  obtain c12 where c12: "fl (12 / 10) = Fin c12" "\<bar>c12\<bar> \<le> 2 * \<bar>12 / 10\<bar>"
    by (rule fl_const_bound[of "12 / 10"]) simp_all
  have "\<bar>r\<bar> * \<bar>c12\<bar> \<le> (V / 9) * (12 / 5)"
    using R c12(2) V0 unfolding R_def by (intro mult_mono) simp_all
  then have rc: "\<bar>r * c12\<bar> \<le> 4 * V / 15" by (simp add: abs_mult)
  then have "\<bar>r * c12\<bar> < T" using VT V0 T by (simp add: field_simps)
  then obtain p where p: "fl (r * c12) = Fin p" "\<bar>p\<bar> \<le> 2 * \<bar>r * c12\<bar>" by (rule fE)
  define cr where "cr = round_half_even p"
  have s7: "py_round (fmul (Fin r) (fl (12 / 10))) = Inr cr"
    unfolding c12(1) by (simp add: p(1) cr_def)
  have cr: "\<bar>rat_of_int cr\<bar> \<le> \<bar>p\<bar> + 1 / 2" unfolding cr_def by (rule rhe_abs_le)
  then have "\<bar>rat_of_int cr\<bar> < T"
    using p(2) rc VT V0 T by (simp add: field_simps)
  then obtain cf where cf: "fl (rat_of_int cr) = Fin cf" "\<bar>cf\<bar> \<le> 2 * \<bar>rat_of_int cr\<bar>"
    by (rule fE)
  have s8: "int_to_float cr = Inr (Fin cf)" by (simp add: int_to_float_def cf(1))
  obtain c125 where c125: "fl (125 / 100) = Fin c125" "\<bar>c125\<bar> \<le> 2 * \<bar>125 / 100\<bar>"
    by (rule fl_const_bound[of "125 / 100"]) simp_all
  have cfb: "\<bar>cf\<bar> \<le> 16 * V / 15 + 1" using cf(2) cr p(2) rc by (simp add: field_simps)
  have "\<bar>cf\<bar> * \<bar>c125\<bar> \<le> (16 * V / 15 + 1) * (5 / 2)"
    using cfb c125(2) V0 by (intro mult_mono) simp_all
  then have "\<bar>cf * c125\<bar> \<le> 8 * V / 3 + 5 / 2" by (simp add: abs_mult algebra_simps)
  then have "\<bar>cf * c125\<bar> < T" using VT V0 T by (simp add: field_simps)
  then obtain p2 where p2: "fl (cf * c125) = Fin p2" by (rule fE)
  have s9: "py_round (fmul (Fin cf) (fl (125 / 100))) = Inr (round_half_even p2)"
    unfolding c125(1) by (simp add: p2)
  \<comment> \<open>the refractory, the doors and the cost\<close>
  obtain rv where s10:
    "fdiv (fsub (fmul (fmul (ext_w_of u) (ext_h_of u)) (ext_l_of u)) (volume_of u))
       (cfloat 1728) = Inr rv"
    using fdiv_const_ok[of 1728] by auto
  obtain br where s11:
    "fdiv (fmul rv (cfloat REFRACTORY_DENSITY_LB_PER_CF)) (cfloat REFRACTORY_BAG_SIZE_LB) = Inr br"
    using fdiv_const_ok[of REFRACTORY_BAG_SIZE_LB] by (auto simp: REFRACTORY_BAG_SIZE_LB_def)
  obtain bags where s12: "py_round_nd br 1 = Inr bags"
    using py_round_nd_ok[OF fdiv_bounded[OF s11]] by blast
  obtain fw where s13: "py_round_nd (fmul (width u) (fl (85 / 100))) 1 = Inr fw"
    using py_round_nd_ok[OF fmul_bounded] by blast
  obtain fh where s14: "py_round_nd (fmul (height u) (fl (85 / 100))) 1 = Inr fh"
    using py_round_nd_ok[OF fmul_bounded] by blast
  obtain rear where s15: "(if door_config_in u = 2
        then exc_bind (py_round_nd (fmul (width u) (fl (7 / 10))) 1) (\<lambda>rw.
             exc_bind (py_round_nd (fmul (height u) (fl (75 / 100))) 1) (\<lambda>rh.
             Inr (PyFloat rw, PyFloat rh)))
        else Inr (PyInt 0, PyInt 0)) = Inr rear"
    using rear_ok by blast
  obtain cost where s16: "py_round_nd (fadd (cfloat COST_BASE_MATERIALS)
                (fmul bags (cfloat COST_REFRACTORY_PER_BAG))) 2 = Inr cost"
    using py_round_nd_ok[OF fadd_bounded] by blast
  have s17: "py_round (fmul (volume_of u) (cfloat BTU_PER_CUBIC_INCH)) = Inr (round_half_even b)"
    by (simp add: v cfloat_def BTU_PER_CUBIC_INCH_def)
  \<comment> \<open>the blanket and the floor bricks\<close>
  obtain bk where s18: "fdiv (fadd (fadd (fmul (fmul (ext_l_of u) (ext_h_of u)) (cfloat 2))
                                (fmul (ext_l_of u) (ext_w_of u)))
                          (fmul (fmul (ext_w_of u) (ext_h_of u)) (cfloat 2))) (cfloat 144) = Inr bk"
    using fdiv_const_ok[of 144] by auto
  obtain bs where s19: "py_round_nd bk 1 = Inr bs"
    using py_round_nd_ok[OF fdiv_bounded[OF s18]] by blast
  from B obtain e where e: "fmul (ext_l_of u) (ext_w_of u) = Fin e" by (auto simp: is_fin_iff)
  have "fbounded (fmul (ext_l_of u) (ext_w_of u))" by (rule fmul_bounded)
  then have "\<bar>e\<bar> \<le> max_double" by (simp add: e)
  then have "\<bar>e / 72\<bar> < T"
    using max_double_lt_threshold unfolding T_def[symmetric] by (simp add: field_simps)
  then obtain fr where fr: "fl (e / 72) = Fin fr" by (rule fE)
  have s20: "fdiv (fmul (ext_l_of u) (ext_w_of u)) (cfloat 72) = Inr (Fin fr)"
    by (simp add: e cfloat_def fr)
  have s21: "py_round (Fin fr) = Inr (round_half_even fr)" by simp
  obtain wt where s22: "py_round_nd (fmul rv (cfloat REFRACTORY_DENSITY_LB_PER_CF)) 1 = Inr wt"
    using py_round_nd_ok[OF fmul_bounded] by blast
  show ?thesis unfolding calc_unfold
    by (simp only: s1 s2 s3 s4 s5 s6 s7 s8 s9 s10 s11 s12 s13 s14 s15 s16 s17 s18 s19 s20 s21
          s22 exc_bind_Inr) blast
qed

lemma calc_returns_only_if:
  assumes "calculate_forge_specs now u = Inr s"
  shows "is_fin (fmul (volume_of u) (cfloat BTU_PER_CUBIC_INCH)) \<and>
         is_fin (fmul (ext_l_of u) (ext_w_of u))"
proof -
  from assms show ?thesis
  proof (rule calc_InrE)
    fix flraw flr
    assume a: "py_round (fmul (volume_of u) (cfloat BTU_PER_CUBIC_INCH)) = Inr (btu_required s)"
      "fdiv (fmul (ext_l_of u) (ext_w_of u)) (cfloat 72) = Inr flraw"
      "py_round flraw = Inr flr"
    from py_round_InrD[OF a(3)] obtain x where "flraw = Fin x" by blast
    with a(2) have "\<exists>x. fmul (ext_l_of u) (ext_w_of u) = Fin x"
      by (intro fdiv_Fin_FinD[of _ 72 x]) (simp add: cfloat_def)
    with py_round_InrD[OF a(1)] show ?thesis by (simp add: is_fin_iff)
  qed
qed


text \<open>A result at or above the threshold is an infinity; powers of two and small
  integers are floats.\<close>

lemma fl_overflow:
  assumes "fl_threshold \<le> x"
  shows "fl x = PInf"
proof (cases "fl x")
  case (Fin y)
  then have "\<bar>x\<bar> < fl_threshold" by (rule fl_finiteD)
  with assms show ?thesis by simp
next
  case PInf then show ?thesis .
next
  case NInf
  have "0 < x" using assms fl_threshold_pos by linarith
  with NInf show ?thesis by (auto simp: fl_def Let_def split: if_splits)
next
  case NaN with fl_not_NaN show ?thesis by blast
qed

lemma fl_pow2:
  assumes "- 1074 \<le> k" "k \<le> 970"
  shows "fl (2 powi k) = Fin (2 powi k)"
  using fl_exact[of 1 k] assms by simp

lemma pos_double_int:
  assumes "0 < m" "m < 2 ^ 53"
  shows "pos_double (Fin (rat_of_int m))"
  using fl_exact[of m 0] assms by simp

lemma huge_volume: "volume_of huge_input = PInf"
proof -
  have a: "(2 :: rat) powi 400 * 2 powi 400 = 2 powi 800"
    by (simp flip: pow2_add)
  have b: "(2 :: rat) powi 800 * 2 powi 400 = 2 powi 1200"
    by (simp flip: pow2_add)
  have "(2 :: rat) powi 1024 \<le> 2 powi 1200" by (rule pow2_mono) simp
  moreover have "0 < (2 :: rat) powi 970" by (rule pow2_pos)
  ultimately have "fl_threshold \<le> 2 powi 1200"
    unfolding fl_threshold_def two_1024_def by linarith
  then have c: "fl (2 powi 1200) = PInf" by (rule fl_overflow)
  have d: "fl (2 powi 800) = Fin (2 powi 800)" by (rule fl_pow2) simp_all
  show ?thesis
    unfolding volume_of_def huge_input_def
    by (simp only: user_input.simps fmul.simps a b c d)
qed

section \<open>The only exception is an overflow\<close>

text \<open>Each step raises nothing but \<^verbatim>\<open>OverflowError\<close>: the divisors are non-zero constants,
  and \<^verbatim>\<open>round\<close> raises \<^verbatim>\<open>ValueError\<close> on a NaN only.\<close>

lemma oo_bind:
  assumes "only_overflow m" "\<And>x. m = Inr x \<Longrightarrow> only_overflow (f x)"
  shows "only_overflow (exc_bind m f)"
  using assms by (cases m) (simp_all add: exc_bind_def only_overflow_def)

lemma oo_Inr: "only_overflow (Inr x)"
  by (simp add: only_overflow_def)

lemma oo_if: "only_overflow a \<Longrightarrow> only_overflow b \<Longrightarrow> only_overflow (if c then a else b)"
  by simp

lemma oo_fdiv: "c \<noteq> 0 \<Longrightarrow> only_overflow (fdiv a (cfloat c))"
  using fdiv_const_ok[of c a] by (auto simp: only_overflow_def)

lemma oo_py_round: "x \<noteq> NaN \<Longrightarrow> only_overflow (py_round x)"
  by (cases x) (simp_all add: only_overflow_def)

lemma oo_py_round_nd: "only_overflow (py_round_nd x n)"
  by (cases x) (simp_all add: only_overflow_def split: pyfloat.splits)

lemma oo_int_truediv: "b \<noteq> 0 \<Longrightarrow> only_overflow (int_truediv a b)"
  by (simp add: int_truediv_def only_overflow_def split: pyfloat.splits)

lemma oo_int_to_float: "only_overflow (int_to_float n)"
  by (simp add: int_to_float_def only_overflow_def split: pyfloat.splits)

text \<open>With positive dimensions no NaN reaches a \<^verbatim>\<open>round\<close>: the volume is not negative and
  the envelope is positive, possibly infinite.\<close>

lemma fl_not_NInf: "0 \<le> x \<Longrightarrow> fl x \<noteq> NInf"
  by (auto simp: fl_def Let_def split: if_splits)

lemma fl_nn: "0 \<le> x \<Longrightarrow> nonneg_or_inf (fl x)"
  using fl_nonneg[of x] fl_not_NInf[of x] fl_not_NaN[of x] by (cases "fl x") simp_all

lemma fl_pos:
  assumes "2 powi k \<le> x" "- 1074 \<le> k"
  shows "pos_or_inf (fl x)"
proof (cases "fl x")
  case (Fin y)
  have "(0 :: rat) < 2 powi k" by (rule pow2_pos)
  with fl_ge_pow2[OF assms Fin] have "0 < y" by linarith
  then show ?thesis by (simp add: Fin)
next
  case PInf then show ?thesis by simp
next
  case NInf
  have "(0 :: rat) < 2 powi k" by (rule pow2_pos)
  then have "0 \<le> x" using assms(1) by linarith
  from fl_not_NInf[OF this] NInf show ?thesis by simp
next
  case NaN with fl_not_NaN show ?thesis by blast
qed

lemma fmul_nn: "nonneg_or_inf a \<Longrightarrow> 0 < c \<Longrightarrow> nonneg_or_inf (fmul a (Fin c))"
  by (cases a) (simp_all add: fl_nn)

lemma fadd_nn: "0 \<le> w \<Longrightarrow> nonneg_or_inf b \<Longrightarrow> nonneg_or_inf (fadd (Fin w) b)"
  by (cases b) (simp_all add: fl_nn)

lemma fadd_pos:
  assumes "nonneg_or_inf a" "2 powi k \<le> c" "- 1074 \<le> k"
  shows "pos_or_inf (fadd a (Fin c))"
proof (cases a)
  case (Fin x)
  with assms(1) have "2 powi k \<le> x + c" using assms(2) by simp
  then show ?thesis using assms(3) by (simp add: Fin fl_pos)
qed (use assms(1) in simp_all)

lemma fmul_pos_not_NaN: "pos_or_inf a \<Longrightarrow> pos_or_inf b \<Longrightarrow> fmul a b \<noteq> NaN"
  by (cases a; cases b) (simp_all add: fl_not_NaN)

lemma nn_not_NaN: "nonneg_or_inf a \<Longrightarrow> a \<noteq> NaN"
  by (cases a) simp_all

lemma fmul_const_not_NaN: "a \<noteq> NaN \<Longrightarrow> 0 < c \<Longrightarrow> fmul a (cfloat c) \<noteq> NaN"
  by (cases a) (simp_all add: cfloat_def fl_not_NaN)

lemma fdiv_const_not_NaN: "a \<noteq> NaN \<Longrightarrow> 0 < c \<Longrightarrow> fdiv a (cfloat c) = Inr r \<Longrightarrow> r \<noteq> NaN"
  by (cases a) (auto simp: cfloat_def fl_not_NaN split: if_splits)

lemma fmul_Fin_fl_not_NaN:
  assumes "\<bar>c\<bar> \<le> 500"
  shows "fmul (Fin a) (fl c) \<noteq> NaN"
proof -
  from assms obtain y where "fl c = Fin y" by (rule fl_const_bound)
  then show ?thesis by (simp add: fl_not_NaN)
qed

lemma int_to_float_InrD: "int_to_float n = Inr f \<Longrightarrow> \<exists>x. f = Fin x"
  by (cases "fl (rat_of_int n)") (auto simp: int_to_float_def)

lemma int_truediv_InrD:
  assumes "int_truediv a b = Inr f"
  shows "\<exists>x. f = Fin x"
proof (cases "fl (rat_of_int a / rat_of_int b)")
  case (Fin y)
  with assms have "f = Fin y" by (simp add: int_truediv_def split: if_splits)
  then show ?thesis by blast
qed (use assms in \<open>simp_all add: int_truediv_def split: if_splits\<close>)

lemma volume_nn:
  assumes "valid_input u"
  shows "nonneg_or_inf (volume_of u)"
proof -
  from assms obtain w h l where d: "width u = Fin w" "height u = Fin h" "length_in u = Fin l"
    and p: "0 < w" "0 < h" "0 < l"
    unfolding valid_input_def
    by (cases "width u"; cases "height u"; cases "length_in u") auto
  have "nonneg_or_inf (fl (w * h))" using p by (intro fl_nn) simp
  then show ?thesis unfolding volume_of_def d fmul.simps(1)[of w h] using p(3) by (rule fmul_nn)
qed

lemma floor_area_not_NaN:
  assumes "valid_input u"
  shows "fmul (ext_l_of u) (ext_w_of u) \<noteq> NaN"
proof -
  from assms obtain w l i where d: "width u = Fin w" "length_in u = Fin l" "insulation_in u = Fin i"
    and p: "0 < w" "0 < l" "0 < i"
    unfolding valid_input_def
    by (cases "width u"; cases "length_in u"; cases "insulation_in u") auto
  have one: "fl 1 = Fin 1" using fl_pow2[of 0] by simp
  have half: "fl (1 / 2) = Fin (1 / 2)" using fl_pow2[of "- 1"] by simp
  have "pos_or_inf (fadd (Fin l) (Fin 1))"
    using p(2) by (intro fadd_pos[of _ 0]) simp_all
  then have el: "pos_or_inf (ext_l_of u)" by (simp only: ext_l_of_def d one)
  have "nonneg_or_inf (fmul (Fin i) (Fin 2))" using p(3) by (intro fmul_nn) simp_all
  then have "nonneg_or_inf (fadd (Fin w) (fmul (Fin i) (Fin 2)))"
    using p(1) by (intro fadd_nn) simp_all
  then have "pos_or_inf (fadd (fadd (Fin w) (fmul (Fin i) (Fin 2))) (Fin (1 / 2)))"
    by (rule fadd_pos[of _ "- 1"]) simp_all
  then have ew: "pos_or_inf (ext_w_of u)" by (simp only: ext_w_of_def d half cfloat_def of_int_numeral)
  from el ew show ?thesis by (rule fmul_pos_not_NaN)
qed

lemma oo_round_fdiv:
  "a \<noteq> NaN \<Longrightarrow> fdiv a (cfloat c) = Inr x \<Longrightarrow> 0 < c \<Longrightarrow> only_overflow (py_round x)"
  by (rule oo_py_round) (rule fdiv_const_not_NaN)

lemma oo_round_truediv: "int_truediv a b = Inr x \<Longrightarrow> only_overflow (py_round x)"
  by (rule oo_py_round) (auto dest: int_truediv_InrD)

lemma oo_round_fmul_rounded:
  "py_round x = Inr n \<Longrightarrow> \<bar>c\<bar> \<le> 500 \<Longrightarrow> only_overflow (py_round (fmul x (fl c)))"
  by (rule oo_py_round) (auto dest: py_round_InrD simp: fmul_Fin_fl_not_NaN)

lemma oo_round_fmul_int:
  "int_to_float n = Inr x \<Longrightarrow> \<bar>c\<bar> \<le> 500 \<Longrightarrow> only_overflow (py_round (fmul x (fl c)))"
  by (rule oo_py_round) (auto dest: int_to_float_InrD simp: fmul_Fin_fl_not_NaN)

lemma oo_round_fmul_const:
  "a \<noteq> NaN \<Longrightarrow> 0 < c \<Longrightarrow> only_overflow (py_round (fmul a (cfloat c)))"
  by (rule oo_py_round) (rule fmul_const_not_NaN)

lemma calc_only_overflow:
  assumes v: "valid_input u"
  shows "only_overflow (calculate_forge_specs now u)"
proof -
  have vn: "volume_of u \<noteq> NaN" using volume_nn[OF v] by (rule nn_not_NaN)
  have fn: "fmul (ext_l_of u) (ext_w_of u) \<noteq> NaN" using v by (rule floor_area_not_NaN)
  show ?thesis
    unfolding calc_unfold
    apply (intro oo_bind oo_Inr oo_if oo_fdiv oo_py_round_nd oo_int_truediv oo_int_to_float)
    apply (simp_all only: HOLE_COVERAGE_CI_def BURNER_ROWS_def REFRACTORY_BAG_SIZE_LB_def)
    subgoal by (erule oo_round_fdiv[OF vn]) simp
    subgoal by (erule oo_round_truediv)
    subgoal premises p using p(2) p(7) by (auto intro: oo_round_fmul_rounded)
    subgoal premises p using p(9) by (auto intro: oo_round_fmul_int)
    subgoal by (rule oo_round_fmul_const[OF vn]) (simp add: BTU_PER_CUBIC_INCH_def)
    subgoal by (erule oo_round_fdiv[OF fn]) simp
    done
qed

lemma huge_input_valid: "valid_input huge_input"
proof -
  have "(0 :: rat) < 2 powi 400" by (rule pow2_pos)
  moreover have "fl (2 powi 400) = Fin (2 powi 400)" by (rule fl_pow2) simp_all
  ultimately have p: "pos_double (Fin (2 powi 400))" by simp
  have q: "pos_double (Fin 2)" using pos_double_int[of 2] by simp
  show ?thesis
    unfolding valid_input_def huge_input_def by (simp only: user_input.simps p q simp_thms)
qed

section \<open>The calculator on the concrete inputs\<close>

text \<open>Each binary64 rounding that these runs perform, checked against its exponent and
  significand.\<close>

lemma fl_val_0: "fl (1 / 2) = Fin (1 / 2)"
  using fl_exact[of 1 "- 1"] by simp

lemma fl_val_1: "fl 1 = Fin 1"
  using fl_exact[of 1 "0"] by simp

lemma fl_val_2: "fl (3 / 2) = Fin (3 / 2)"
  using fl_exact[of 3 "- 1"] by simp

lemma fl_val_3: "fl 3 = Fin 3"
  using fl_exact[of 3 "0"] by simp

lemma fl_val_4: "fl (3 / 4) = Fin (3 / 4)"
  using fl_exact[of 3 "- 2"] by simp

lemma fl_val_5: "fl (6 / 5) = Fin (5404319552844595 / 4503599627370496)"
  using fl_cert[of "0" "6 / 5" 5404319552844595] by simp

lemma fl_val_6: "fl (5 / 4) = Fin (5 / 4)"
  using fl_exact[of 5 "- 2"] by simp

lemma fl_val_7: "fl (17 / 20) = Fin (7656119366529843 / 9007199254740992)"
  using fl_cert[of "- 1" "17 / 20" 7656119366529843] by simp

lemma fl_val_8: "fl 36 = Fin 36"
  using fl_exact[of 9 "2"] by simp

lemma fl_val_9: "fl 504 = Fin 504"
  using fl_exact[of 63 "3"] by simp

lemma fl_val_10: "fl 4 = Fin 4"
  using fl_exact[of 1 "2"] by simp

lemma fl_val_11: "fl 10 = Fin 10"
  using fl_exact[of 5 "1"] by simp

lemma fl_val_12: "fl (21 / 2) = Fin (21 / 2)"
  using fl_exact[of 21 "- 1"] by simp

lemma fl_val_13: "fl 15 = Fin 15"
  using fl_exact[of 15 "0"] by simp

lemma fl_val_14: "fl 28 = Fin 28"
  using fl_exact[of 7 "2"] by simp

lemma fl_val_15: "fl (28 / 3) = Fin (5254199565265579 / 562949953421312)"
  using fl_cert[of "3" "28 / 3" 5254199565265579] by simp

lemma fl_val_16: "fl 9 = Fin 9"
  using fl_exact[of 9 "0"] by simp

lemma fl_val_17: "fl (27 / 4) = Fin (27 / 4)"
  using fl_exact[of 27 "- 2"] by simp

lemma fl_val_18: "fl (33 / 4) = Fin (33 / 4)"
  using fl_exact[of 33 "- 2"] by simp

lemma fl_val_19: "fl (41 / 5) = Fin (2308094809027379 / 281474976710656)"
  using fl_cert[of "3" "41 / 5" 4616189618054758] by simp

lemma fl_val_20: "fl (37830236869912165 / 1125899906842624) = Fin (4728779608739021 / 140737488355328)"
  using fl_cert[of "5" "37830236869912165 / 1125899906842624" 4728779608739021] by simp

lemma fl_val_21: "fl 34 = Fin 34"
  using fl_exact[of 17 "1"] by simp

lemma fl_val_22: "fl (85 / 2) = Fin (85 / 2)"
  using fl_exact[of 85 "- 1"] by simp

lemma fl_val_23: "fl (441 / 4) = Fin (441 / 4)"
  using fl_exact[of 441 "- 2"] by simp

lemma fl_val_24: "fl (6615 / 4) = Fin (6615 / 4)"
  using fl_exact[of 6615 "- 2"] by simp

lemma fl_val_25: "fl (4599 / 4) = Fin (4599 / 4)"
  using fl_exact[of 4599 "- 2"] by simp

lemma fl_val_26: "fl (511 / 768) = Fin (5993071379131051 / 9007199254740992)"
  using fl_cert[of "- 1" "511 / 768" 5993071379131051] by simp

lemma fl_val_27: "fl (137840641720014173 / 2251799813685248) = Fin (4307520053750443 / 70368744177664)"
  using fl_cert[of "5" "137840641720014173 / 2251799813685248" 8615040107500886] by simp

lemma fl_val_28: "fl (4307520053750443 / 3870280929771520) = Fin (5012386971636879 / 4503599627370496)"
  using fl_cert[of "0" "4307520053750443 / 3870280929771520" 5012386971636879] by simp

lemma fl_val_29: "fl (11 / 10) = Fin (2476979795053773 / 2251799813685248)"
  using fl_cert[of "0" "11 / 10" 4953959590107546] by simp

lemma fl_val_30: "fl (22968358099589529 / 4503599627370496) = Fin (2871044762448691 / 562949953421312)"
  using fl_cert[of "2" "22968358099589529 / 4503599627370496" 5742089524897382] by simp

lemma fl_val_31: "fl (51 / 10) = Fin (2871044762448691 / 562949953421312)"
  using fl_cert[of "2" "51 / 10" 5742089524897382] by simp

lemma fl_val_32: "fl 11 = Fin 11"
  using fl_exact[of 11 "0"] by simp

lemma fl_val_33: "fl (13 / 2) = Fin (13 / 2)"
  using fl_exact[of 13 "- 1"] by simp

lemma fl_val_34: "fl (136233888727957515 / 1125899906842624) = Fin (8514618045497345 / 70368744177664)"
  using fl_cert[of "6" "136233888727957515 / 1125899906842624" 8514618045497345] by simp

lemma fl_val_35: "fl (26106804089913345 / 70368744177664) = Fin 371"
  using fl_cert[of "8" "26106804089913345 / 70368744177664" 6526701022478336] by simp

lemma fl_val_36: "fl 371 = Fin 371"
  using fl_exact[of 371 "0"] by simp

lemma fl_val_37: "fl 226800 = Fin 226800"
  using fl_exact[of 14175 "4"] by simp

lemma fl_val_38: "fl (315 / 2) = Fin (315 / 2)"
  using fl_exact[of 315 "- 1"] by simp

lemma fl_val_39: "fl 315 = Fin 315"
  using fl_exact[of 315 "0"] by simp

lemma fl_val_40: "fl (945 / 2) = Fin (945 / 2)"
  using fl_exact[of 945 "- 1"] by simp

lemma fl_val_41: "fl (441 / 2) = Fin (441 / 2)"
  using fl_exact[of 441 "- 1"] by simp

lemma fl_val_42: "fl 693 = Fin 693"
  using fl_exact[of 693 "0"] by simp

lemma fl_val_43: "fl (77 / 16) = Fin (77 / 16)"
  using fl_exact[of 77 "- 4"] by simp

lemma fl_val_44: "fl (24 / 5) = Fin (5404319552844595 / 1125899906842624)"
  using fl_cert[of "2" "24 / 5" 5404319552844595] by simp

lemma fl_val_45: "fl (35 / 16) = Fin (35 / 16)"
  using fl_exact[of 35 "- 4"] by simp

lemma fl_val_46: "fl (306 / 5) = Fin (4306567143673037 / 70368744177664)"
  using fl_cert[of "5" "306 / 5" 8613134287346074] by simp

lemma fl_val_47: "fl (7 / 10) = Fin (3152519739159347 / 4503599627370496)"
  using fl_cert[of "- 1" "7 / 10" 6305039478318694] by simp

lemma fl_val_48: "fl (9457559217478041 / 2251799813685248) = Fin (1182194902184755 / 281474976710656)"
  using fl_cert_tie[of "2" "9457559217478041 / 2251799813685248" 4728779608739020 4728779608739020] by simp

lemma fl_val_49: "fl (21 / 5) = Fin (4728779608739021 / 1125899906842624)"
  using fl_cert[of "2" "21 / 5" 4728779608739021] by simp

lemma fl_val_50: "fl (9 / 2) = Fin (9 / 2)"
  using fl_exact[of 9 "- 1"] by simp

lemma fl_val_51: "fl 25 = Fin 25"
  using fl_exact[of 25 "0"] by simp

lemma fl_val_52: "fl 500 = Fin 500"
  using fl_exact[of 125 "2"] by simp

lemma fl_val_53: "fl (19 / 2) = Fin (19 / 2)"
  using fl_exact[of 19 "- 1"] by simp

lemma fl_val_54: "fl 21 = Fin 21"
  using fl_exact[of 21 "0"] by simp

lemma fl_val_55: "fl (250 / 9) = Fin (3909374676536889 / 140737488355328)"
  using fl_cert[of "4" "250 / 9" 7818749353073778] by simp

lemma fl_val_56: "fl (21127510003803823176883401764955 / 633825300114114700748351602688) = Fin (4691249611844267 / 140737488355328)"
  using fl_cert[of "5" "21127510003803823176883401764955 / 633825300114114700748351602688" 4691249611844267] by simp

lemma fl_val_57: "fl 33 = Fin 33"
  using fl_exact[of 33 "0"] by simp

lemma fl_val_58: "fl (165 / 4) = Fin (165 / 4)"
  using fl_exact[of 165 "- 2"] by simp

lemma fl_val_59: "fl (361 / 4) = Fin (361 / 4)"
  using fl_exact[of 361 "- 2"] by simp

lemma fl_val_60: "fl (7581 / 4) = Fin (7581 / 4)"
  using fl_exact[of 7581 "- 2"] by simp

lemma fl_val_61: "fl (5581 / 4) = Fin (5581 / 4)"
  using fl_exact[of 5581 "- 2"] by simp

lemma fl_val_62: "fl (5581 / 6912) = Fin (909092502906349 / 1125899906842624)"
  using fl_cert[of "- 1" "5581 / 6912" 7272740023250792] by simp

lemma fl_val_63: "fl (20909127566846027 / 281474976710656) = Fin (5227281891711507 / 70368744177664)"
  using fl_cert[of "6" "20909127566846027 / 281474976710656" 5227281891711507] by simp

lemma fl_val_64: "fl (5227281891711507 / 3870280929771520) = Fin (3041327646086695 / 2251799813685248)"
  using fl_cert[of "0" "5227281891711507 / 3870280929771520" 6082655292173390] by simp

lemma fl_val_65: "fl (7 / 5) = Fin (3152519739159347 / 2251799813685248)"
  using fl_cert[of "0" "7 / 5" 6305039478318694] by simp

lemma fl_val_66: "fl (38280596832649215 / 9007199254740992) = Fin (17 / 4)"
  using fl_cert[of "2" "38280596832649215 / 9007199254740992" 4785074604081152] by simp

lemma fl_val_67: "fl 17 = Fin 17"
  using fl_exact[of 17 "0"] by simp

lemma fl_val_68: "fl (11 / 2) = Fin (11 / 2)"
  using fl_exact[of 11 "- 1"] by simp

lemma fl_val_69: "fl (173388585653764085 / 1125899906842624) = Fin 154"
  using fl_cert[of "7" "173388585653764085 / 1125899906842624" 5418393301680128] by simp

lemma fl_val_70: "fl 404 = Fin 404"
  using fl_exact[of 101 "2"] by simp

lemma fl_val_71: "fl 225000 = Fin 225000"
  using fl_exact[of 28125 "3"] by simp

lemma fl_val_72: "fl (399 / 2) = Fin (399 / 2)"
  using fl_exact[of 399 "- 1"] by simp

lemma fl_val_73: "fl 399 = Fin 399"
  using fl_exact[of 399 "0"] by simp

lemma fl_val_74: "fl (1197 / 2) = Fin (1197 / 2)"
  using fl_exact[of 1197 "- 1"] by simp

lemma fl_val_75: "fl (361 / 2) = Fin (361 / 2)"
  using fl_exact[of 361 "- 1"] by simp

lemma fl_val_76: "fl 779 = Fin 779"
  using fl_exact[of 779 "0"] by simp

lemma fl_val_77: "fl (779 / 144) = Fin (6090805746044473 / 1125899906842624)"
  using fl_cert[of "2" "779 / 144" 6090805746044473] by simp

lemma fl_val_78: "fl (27 / 5) = Fin (3039929748475085 / 562949953421312)"
  using fl_cert[of "2" "27 / 5" 6079859496950170] by simp

lemma fl_val_79: "fl (133 / 48) = Fin (6239361983752875 / 2251799813685248)"
  using fl_cert[of "1" "133 / 48" 6239361983752875] by simp

lemma fl_val_80: "fl (743 / 10) = Fin (5228397692400435 / 70368744177664)"
  using fl_cert[of "6" "743 / 10" 5228397692400435] by simp

lemma fl_val_81: "fl 2 = Fin 2"
  using fl_exact[of 1 "1"] by simp

lemma fl_val_82: "fl (7 / 2) = Fin (7 / 2)"
  using fl_exact[of 7 "- 1"] by simp

lemma fl_val_83: "fl (1 / 9) = Fin (2001599834386887 / 18014398509481984)"
  using fl_cert[of "- 4" "1 / 9" 8006399337547548] by simp

lemma fl_val_84: "fl (10817285121947556558638616825765 / 81129638414606681695789005144064) = Fin (4803839602528529 / 36028797018963968)"
  using fl_cert[of "- 3" "10817285121947556558638616825765 / 81129638414606681695789005144064" 4803839602528529] by simp

lemma fl_val_85: "fl (49 / 4) = Fin (49 / 4)"
  using fl_exact[of 49 "- 2"] by simp

lemma fl_val_86: "fl (147 / 4) = Fin (147 / 4)"
  using fl_exact[of 147 "- 2"] by simp

lemma fl_val_87: "fl (139 / 4) = Fin (139 / 4)"
  using fl_exact[of 139 "- 2"] by simp

lemma fl_val_88: "fl (139 / 6912) = Fin (5796299520412027 / 288230376151711744)"
  using fl_cert[of "- 6" "139 / 6912" 5796299520412027] by simp

lemma fl_val_89: "fl (133314888969476621 / 72057594037927936) = Fin (8332180560592289 / 4503599627370496)"
  using fl_cert[of "0" "133314888969476621 / 72057594037927936" 8332180560592289] by simp

lemma fl_val_90: "fl (8332180560592289 / 247697979505377280) = Fin (4847814144344605 / 144115188075855872)"
  using fl_cert[of "- 5" "8332180560592289 / 247697979505377280" 4847814144344605] by simp

lemma fl_val_91: "fl (7656119366529843 / 9007199254740992) = Fin (7656119366529843 / 9007199254740992)"
  using fl_exact[of 7656119366529843 "- 53"] by simp

lemma fl_val_92: "fl (4 / 5) = Fin (3602879701896397 / 4503599627370496)"
  using fl_cert[of "- 1" "4 / 5" 7205759403792794] by simp

lemma fl_val_93: "fl 250 = Fin 250"
  using fl_exact[of 125 "1"] by simp

lemma fl_val_94: "fl 900 = Fin 900"
  using fl_exact[of 225 "2"] by simp

lemma fl_val_95: "fl (63 / 2) = Fin (63 / 2)"
  using fl_exact[of 63 "- 1"] by simp

lemma fl_val_96: "fl (49 / 2) = Fin (49 / 2)"
  using fl_exact[of 49 "- 1"] by simp

lemma fl_val_97: "fl 56 = Fin 56"
  using fl_exact[of 7 "3"] by simp

lemma fl_val_98: "fl (7 / 18) = Fin (7005599420354105 / 18014398509481984)"
  using fl_cert[of "- 2" "7 / 18" 7005599420354105] by simp

lemma fl_val_99: "fl (2 / 5) = Fin (3602879701896397 / 9007199254740992)"
  using fl_cert[of "- 2" "2 / 5" 7205759403792794] by simp

lemma fl_val_100: "fl (7 / 48) = Fin (5254199565265579 / 36028797018963968)"
  using fl_cert[of "- 3" "7 / 48" 5254199565265579] by simp

lemma fl_val_101: "fl (19 / 10) = Fin (4278419646001971 / 2251799813685248)"
  using fl_cert[of "0" "19 / 10" 8556839292003942] by simp

lemma fl_val_102: "fl (83 / 10) = Fin (2336242306698445 / 281474976710656)"
  using fl_cert[of "3" "83 / 10" 4672484613396890] by simp

text \<open>Each rounding to an integer that these runs perform.\<close>

lemma rhe_val_0: "round_half_even (5254199565265579 / 562949953421312) = 9"
  by (rule rhe_eqI) simp_all

lemma rhe_val_1: "round_half_even (165 / 2) = 82"
  using rhe_tie[of "82"] by simp

lemma rhe_val_2: "round_half_even (4728779608739021 / 140737488355328) = 34"
  by (rule rhe_eqI) simp_all

lemma rhe_val_3: "round_half_even (85 / 2) = 42"
  using rhe_tie[of "42"] by simp

lemma rhe_val_4: "round_half_even (25061934858184395 / 2251799813685248) = 11"
  by (rule rhe_eqI) simp_all

lemma rhe_val_5: "round_half_even (14355223812243455 / 281474976710656) = 51"
  by (rule rhe_eqI) simp_all

lemma rhe_val_6: "round_half_even (385 / 8) = 48"
  by (rule rhe_eqI) simp_all

lemma rhe_val_7: "round_half_even (35 / 16) = 2"
  by (rule rhe_eqI) simp_all

lemma rhe_val_8: "round_half_even (21537600268752215 / 35184372088832) = 612"
  by (rule rhe_eqI) simp_all

lemma rhe_val_9: "round_half_even (5910974510923775 / 140737488355328) = 42"
  by (rule rhe_eqI) simp_all

lemma rhe_val_10: "round_half_even (3909374676536889 / 140737488355328) = 28"
  by (rule rhe_eqI) simp_all

lemma rhe_val_11: "round_half_even (4691249611844267 / 140737488355328) = 33"
  by (rule rhe_eqI) simp_all

lemma rhe_val_12: "round_half_even (165 / 4) = 41"
  by (rule rhe_eqI) simp_all

lemma rhe_val_13: "round_half_even (15206638230433475 / 1125899906842624) = 14"
  by (rule rhe_eqI) simp_all

lemma rhe_val_14: "round_half_even (30454028730222365 / 562949953421312) = 54"
  by (rule rhe_eqI) simp_all

lemma rhe_val_15: "round_half_even (6239361983752875 / 2251799813685248) = 3"
  by (rule rhe_eqI) simp_all

lemma rhe_val_16: "round_half_even (26136409458557535 / 35184372088832) = 743"
  by (rule rhe_eqI) simp_all

lemma rhe_val_17: "round_half_even (2001599834386887 / 18014398509481984) = 0"
  by (rule rhe_eqI) simp_all

lemma rhe_val_18: "round_half_even (4803839602528529 / 36028797018963968) = 0"
  by (rule rhe_eqI) simp_all

lemma rhe_val_19: "round_half_even (24239070721723025 / 72057594037927936) = 0"
  by (rule rhe_eqI) simp_all

lemma rhe_val_20: "round_half_even (38280596832649215 / 4503599627370496) = 8"
  by (rule rhe_eqI) simp_all

lemma rhe_val_21: "round_half_even (35027997101770525 / 9007199254740992) = 4"
  by (rule rhe_eqI) simp_all

lemma rhe_val_22: "round_half_even (5254199565265579 / 36028797018963968) = 0"
  by (rule rhe_eqI) simp_all

lemma rhe_val_23: "round_half_even (41660902802961445 / 2251799813685248) = 19"
  by (rule rhe_eqI) simp_all

lemmas fl_vals =
  fl_val_0 fl_val_1 fl_val_2 fl_val_3 fl_val_4 fl_val_5 fl_val_6 fl_val_7 fl_val_8 fl_val_9
  fl_val_10 fl_val_11 fl_val_12 fl_val_13 fl_val_14 fl_val_15 fl_val_16 fl_val_17 fl_val_18
  fl_val_19 fl_val_20 fl_val_21 fl_val_22 fl_val_23 fl_val_24 fl_val_25 fl_val_26 fl_val_27
  fl_val_28 fl_val_29 fl_val_30 fl_val_31 fl_val_32 fl_val_33 fl_val_34 fl_val_35 fl_val_36
  fl_val_37 fl_val_38 fl_val_39 fl_val_40 fl_val_41 fl_val_42 fl_val_43 fl_val_44 fl_val_45
  fl_val_46 fl_val_47 fl_val_48 fl_val_49 fl_val_50 fl_val_51 fl_val_52 fl_val_53 fl_val_54
  fl_val_55 fl_val_56 fl_val_57 fl_val_58 fl_val_59 fl_val_60 fl_val_61 fl_val_62 fl_val_63
  fl_val_64 fl_val_65 fl_val_66 fl_val_67 fl_val_68 fl_val_69 fl_val_70 fl_val_71 fl_val_72
  fl_val_73 fl_val_74 fl_val_75 fl_val_76 fl_val_77 fl_val_78 fl_val_79 fl_val_80 fl_val_81
  fl_val_82 fl_val_83 fl_val_84 fl_val_85 fl_val_86 fl_val_87 fl_val_88 fl_val_89 fl_val_90
  fl_val_91 fl_val_92 fl_val_93 fl_val_94 fl_val_95 fl_val_96 fl_val_97 fl_val_98 fl_val_99
  fl_val_100 fl_val_101 fl_val_102 rhe_val_0 rhe_val_1 rhe_val_2 rhe_val_3 rhe_val_4
  rhe_val_5 rhe_val_6 rhe_val_7 rhe_val_8 rhe_val_9 rhe_val_10 rhe_val_11 rhe_val_12
  rhe_val_13 rhe_val_14 rhe_val_15 rhe_val_16 rhe_val_17 rhe_val_18 rhe_val_19 rhe_val_20
  rhe_val_21 rhe_val_22 rhe_val_23

lemmas calc_eval_simps =
  fl_vals fl_0 fl_minus fsub_def cfloat_def HOLE_SPACING_def int_to_float_def int_truediv_def
  rhe_numeral rhe_zero rhe_one rhe_neg_numeral Let_def exc_bind_Inr exc_bind_Inl calculate_steel_cuts_def
  REFRACTORY_DENSITY_LB_PER_CF_def REFRACTORY_BAG_SIZE_LB_def BTU_PER_CUBIC_INCH_def
  HOLE_COVERAGE_CI_def MIN_BURNER_HOLES_def BURNER_ROWS_def COST_REFRACTORY_PER_BAG_def
  COST_BASE_MATERIALS_def volume_of_def ext_w_of_def ext_h_of_def ext_l_of_def

lemma scenario_A_result: "calculate_forge_specs now scenario_A = Inr (specs_A now)"
  unfolding calc_unfold specs_A_def scenario_A_def
  by (simp add: calc_eval_simps cong: exc_bind_weak_cong)




section \<open>Properties of the calculator\<close>


lemma map_sum_exc_bind:
  "map_sum id f (exc_bind m g) = exc_bind m (\<lambda>x. map_sum id f (g x))"
  by (cases m) (simp_all add: exc_bind_def)

lemma exc_bind_cong:
  "m = m' \<Longrightarrow> (\<And>x. m' = Inr x \<Longrightarrow> f x = g x) \<Longrightarrow> exc_bind m f = exc_bind m' g"
  by (cases m') (simp_all add: exc_bind_def)

text \<open>
  Claim C1, as amended. For the input width 6, height 6, length 14, insulation 2, front door
  only, the calculator returns internal volume 504, 27 burner holes in rows of 9, a burner
  length of 8.2 (\<open>8.25\<close> is a tie and Python rounds it to the even digit), 34 CFM required,
  42 CFM recommended (\<open>42.5\<close> is a tie too), the static pressure string \<open>3.0\<close> (504 is not
  below 500), and a front door of 5.1 by 5.1. A decimal such as 8.2 stands for the double
  nearest to it, \<open>fl (82 / 10)\<close>.
\<close>

theorem C1_scenario_A:
  "calculate_forge_specs now scenario_A = Inr (specs_A now) \<and>
   scenario_A = \<lparr>width = Fin 6, height = Fin 6, length_in = Fin 14, insulation_in = Fin 2,
                  door_config_in = 1\<rparr> \<and>
   internal_volume (specs_A now) = Fin 504 \<and>
   burner_holes (specs_A now) = 27 \<and>
   holes_per_row (specs_A now) = 9 \<and>
   burner_length (specs_A now) = fl (82 / 10) \<and>
   cfm_required (specs_A now) = 34 \<and>
   cfm_recommended (specs_A now) = 42 \<and>
   static_pressure (specs_A now) = ''3.0'' \<and>
   front_door_w (specs_A now) = fl (51 / 10) \<and>
   front_door_h (specs_A now) = fl (51 / 10)"
  using scenario_A_result[of now] by (simp add: specs_A_def scenario_A_def)

text \<open>
  Claim C1 as stated does not hold: on that input the burner length is not 8.3, the recommended
  CFM is not 43 and the static pressure is not \<open>1.5\<close>.
\<close>

theorem C1_counterexample:
  "calculate_forge_specs ''2026-01-01 12:00'' scenario_A = Inr (specs_A ''2026-01-01 12:00'') \<and>
   burner_length (specs_A ''2026-01-01 12:00'') \<noteq> fl (83 / 10) \<and>
   cfm_recommended (specs_A ''2026-01-01 12:00'') \<noteq> 43 \<and>
   static_pressure (specs_A ''2026-01-01 12:00'') \<noteq> ''1.5''"
  using scenario_A_result[of "''2026-01-01 12:00''"] by (simp add: specs_A_def fl_vals)











text \<open>
  Claim C9. Side loading (configuration 3) differs from front only (configuration 1) in two
  fields and no other: if the calculator returns \<open>s\<close> for front only, then for side loading
  on the same dimensions (and the same clock reading) it returns \<open>s\<close> with the echoed
  configuration changed from 1 to 3 and the door brick count changed from 4 to 6.
\<close>

lemma calc_other_door:
  assumes "d \<noteq> 2" "d' \<noteq> 2"
  shows "calculate_forge_specs now (u\<lparr>door_config_in := d'\<rparr>) =
         map_sum id (\<lambda>s. s\<lparr>door_config := d', ifb_doors := (if d' = 1 then 4 else 6)\<rparr>)
           (calculate_forge_specs now (u\<lparr>door_config_in := d\<rparr>))"
  using assms
  by (simp add: calc_unfold map_sum_exc_bind volume_of_def ext_w_of_def ext_h_of_def
        ext_l_of_def cong: exc_bind_cong)

theorem C9_side_loading:
  assumes "calculate_forge_specs now (u\<lparr>door_config_in := 1\<rparr>) = Inr s"
  shows "calculate_forge_specs now (u\<lparr>door_config_in := 3\<rparr>)
           = Inr (s\<lparr>door_config := 3, ifb_doors := 6\<rparr>) \<and>
         door_config s = 1 \<and> ifb_doors s = 4"
proof -
  have "calculate_forge_specs now (u\<lparr>door_config_in := 3\<rparr>)
          = Inr (s\<lparr>door_config := 3, ifb_doors := 6\<rparr>)"
    using calc_other_door[of 1 3 now u] assms by simp
  moreover from assms have "door_config s = 1 \<and> ifb_doors s = 4"
    by (rule calc_InrE) simp
  ultimately show ?thesis by simp
qed

theorem C9_witness:
  "calculate_forge_specs ''2026-01-01 12:00'' (scenario_A\<lparr>door_config_in := 1\<rparr>)
     = Inr (specs_A ''2026-01-01 12:00'') \<and>
   calculate_forge_specs ''2026-01-01 12:00'' (scenario_A\<lparr>door_config_in := 3\<rparr>)
     = Inr ((specs_A ''2026-01-01 12:00'')\<lparr>door_config := 3, ifb_doors := 6\<rparr>) \<and>
   door_config (specs_A ''2026-01-01 12:00'') = 1 \<and> ifb_doors (specs_A ''2026-01-01 12:00'') = 4"
proof -
  have a: "scenario_A\<lparr>door_config_in := 1\<rparr> = scenario_A" by (simp add: scenario_A_def)
  have r: "calculate_forge_specs ''2026-01-01 12:00'' (scenario_A\<lparr>door_config_in := 1\<rparr>)
     = Inr (specs_A ''2026-01-01 12:00'')"
    unfolding a by (rule scenario_A_result)
  show ?thesis by (rule conjI[OF r C9_side_loading[OF r]])
qed





text \<open>
  Claim C5. On an input whose four dimensions are finite positive floats and whose door
  configuration is 1, 2 or 3, the calculator returns a record when the two float products
  \<^verbatim>\<open>internal_volume * 450\<close> and \<^verbatim>\<open>ext_l * ext_w\<close> of that input are finite, and raises
  \<^verbatim>\<open>OverflowError\<close> (from \<^verbatim>\<open>round\<close> of an infinity) when one of them is not. So it is
  not total on these inputs; it raises no other exception, and none while the two products
  are finite.
\<close>

theorem C5_returns_or_overflows:
  assumes "valid_input u"
  shows "(is_fin (fmul (fmul (fmul (width u) (height u)) (length_in u)) (cfloat 450)) \<and>
          is_fin (fmul (fadd (length_in u) (fl 1))
                    (fadd (fadd (width u) (fmul (insulation_in u) (cfloat 2))) (fl (1 / 2))))
          \<longrightarrow> (\<exists>s. calculate_forge_specs now u = Inr s)) \<and>
         (\<not> (is_fin (fmul (fmul (fmul (width u) (height u)) (length_in u)) (cfloat 450)) \<and>
             is_fin (fmul (fadd (length_in u) (fl 1))
                    (fadd (fadd (width u) (fmul (insulation_in u) (cfloat 2))) (fl (1 / 2)))))
          \<longrightarrow> calculate_forge_specs now u = Inl OverflowError)"
proof -
  have "calculate_forge_specs now u = Inl OverflowError"
    if "\<And>s. calculate_forge_specs now u \<noteq> Inr s"
    using that calc_only_overflow[OF assms, of now]
    by (cases "calculate_forge_specs now u") (auto simp: only_overflow_def)
  then show ?thesis
    using calc_returns[of u now] calc_returns_only_if[of now u]
    unfolding volume_of_def ext_l_of_def ext_w_of_def BTU_PER_CUBIC_INCH_def
    by blast
qed

text \<open>The 6 x 6 x 14 chamber has finite products and the calculator returns on it; the
  chamber of \<open>huge_input\<close> has an infinite volume and the calculator raises
  \<^verbatim>\<open>OverflowError\<close> on it.\<close>

theorem C5_witness:
  "valid_input scenario_A \<and>
   is_fin (fmul (fmul (fmul (width scenario_A) (height scenario_A)) (length_in scenario_A))
             (cfloat 450)) \<and>
   is_fin (fmul (fadd (length_in scenario_A) (fl 1))
             (fadd (fadd (width scenario_A) (fmul (insulation_in scenario_A) (cfloat 2)))
                (fl (1 / 2)))) \<and>
   (\<exists>s. calculate_forge_specs ''2026-01-01 12:00'' scenario_A = Inr s) \<and>
   valid_input huge_input \<and>
   \<not> is_fin (fmul (fmul (fmul (width huge_input) (height huge_input)) (length_in huge_input))
               (cfloat 450)) \<and>
   calculate_forge_specs ''2026-01-01 12:00'' huge_input = Inl OverflowError"
proof -
  have v: "valid_input scenario_A"
    using pos_double_int[of 6] pos_double_int[of 14] pos_double_int[of 2]
    by (simp add: valid_input_def scenario_A_def)
  have f: "is_fin (fmul (fmul (fmul (width scenario_A) (height scenario_A))
             (length_in scenario_A)) (cfloat 450))"
    "is_fin (fmul (fadd (length_in scenario_A) (fl 1))
             (fadd (fadd (width scenario_A) (fmul (insulation_in scenario_A) (cfloat 2)))
                (fl (1 / 2))))"
    by (simp_all add: scenario_A_def cfloat_def fl_vals)
  have a: "\<exists>s. calculate_forge_specs ''2026-01-01 12:00'' scenario_A = Inr s"
    using C5_returns_or_overflows[OF v, of "''2026-01-01 12:00''"] f by blast
  have n: "\<not> is_fin (fmul (fmul (fmul (width huge_input) (height huge_input))
             (length_in huge_input)) (cfloat 450))"
    using huge_volume by (simp add: volume_of_def cfloat_def)
  have "calculate_forge_specs ''2026-01-01 12:00'' huge_input = Inl OverflowError"
    using C5_returns_or_overflows[OF huge_input_valid, of "''2026-01-01 12:00''"] n by blast
  with v f a n huge_input_valid show ?thesis by blast
qed

text \<open>The chamber of \<open>huge_input\<close> has finite positive dimensions and the door
  configuration 1; its volume is infinite, and the calculator raises \<^verbatim>\<open>OverflowError\<close> at
  the first \<^verbatim>\<open>round\<close>.\<close>

theorem C5_counterexample:
  "valid_input huge_input \<and>
   calculate_forge_specs ''2026-01-01 12:00'' huge_input = Inl OverflowError"
proof -
  have "fdiv (volume_of huge_input) (cfloat HOLE_COVERAGE_CI) = Inr PInf"
    by (simp add: huge_volume cfloat_def HOLE_COVERAGE_CI_def)
  then have "calculate_forge_specs ''2026-01-01 12:00'' huge_input = Inl OverflowError"
    unfolding calc_unfold by (simp only: exc_bind_Inr py_round.simps exc_bind_Inl)
  with huge_input_valid show ?thesis by simp
qed

end
